theory Spec2Isabelle
  imports Complex_Main
begin

section \<open>Data model\<close>

text \<open>
  The catalog synchronisation pipeline of the repository exists in two generations that the
  specification describes together:
  \<^item> the job \<^verbatim>\<open>backend/src/jobs/syncCatalog.js\<close> (class CatalogSyncer) on top of the
    rate-limited, cached TMDBService of \<^verbatim>\<open>unnamed/part_003\<close> and the Media model of
    \<^verbatim>\<open>backend/src/models/Media.js\<close>;
  \<^item> the script \<^verbatim>\<open>scripts/syncCatalog.js\<close> on top of ContentAggregator
    (\<^verbatim>\<open>unnamed/part_006\<close>) and the plain TMDBService of \<^verbatim>\<open>services/tmdbService.js\<close>.
  Definitions of the job keep the source's names; definitions of the second generation carry
  the prefix \<open>agg_\<close> (ContentAggregator) or \<open>script_\<close> where a name would clash.

  JavaScript numbers that hold ratings and popularity are rationals here, identifiers and
  counters are integers, and a \<^verbatim>\<open>Date\<close> is its number of milliseconds since the epoch.
  Every \<^verbatim>\<open>new Date()\<close> and \<^verbatim>\<open>Date.now()\<close> of one operation reads the same instant
  \<open>now\<close>, which the operation takes as an argument.
\<close>

datatype media_type = Movie | Series | Anime | Documentary | Cartoon

datatype error = RequestFailed | ValidationError | CastError | DuplicateKey

type_synonym payload = "(string \<times> string) list"

text \<open>The pair \<^verbatim>\<open>{ average, count }\<close> of \<^verbatim>\<open>rating.tmdb\<close> and \<^verbatim>\<open>rating.internal\<close>.\<close>

record score =
  average :: rat
  count :: int

record rating =
  ageRating :: string
  tmdb :: score
  internal :: score

text \<open>
  \<^verbatim>\<open>analytics\<close> of Media.js; the sync code reads \<^verbatim>\<open>analytics.views\<close> and copies the
  sub-document as a whole, so the remaining counters and histories are one field.
\<close>

record analytics =
  views :: int
  histories :: payload

text \<open>
  The plain object that the converters build and \<^verbatim>\<open>new Media(...)\<close> or
  \<^verbatim>\<open>findByIdAndUpdate\<close> receive. \<open>subtitles\<close> is \<^verbatim>\<open>streamingInfo.subtitles\<close> when the
  object gives it: each element is an object \<^verbatim>\<open>{ language, url }\<close> or a string. The fields
  that are copied from the remote detail, that the schema casts without a condition on a
  well-typed answer of the remote API and that no operation reads (imdbId, originalTitle,
  year, dates, tagline, duration, poster, backdrop, genre, cast, crew, availableOn, keywords,
  embedUrl, seasons) are the field \<open>rest\<close>.
\<close>

datatype subtitle = Track string string | Plain string

record mediaData =
  tmdbId :: int
  title :: string
  type :: media_type
  description :: string
  rating :: rating
  popularity :: rat
  slug :: string
  status :: string
  subtitles :: "subtitle list option"
  rest :: payload
  isActive :: bool
  featured :: bool
  trending :: bool
  createdAt :: int
  updatedAt :: int
  lastSyncAt :: int

text \<open>A persisted document: the data, its \<^verbatim>\<open>_id\<close> and the analytics sub-document.\<close>

record media = mediaData +
  oid :: nat
  analytics :: analytics

text \<open>
  The collection. Documents are kept in insertion order, which is the order \<^verbatim>\<open>findOne\<close>
  and \<^verbatim>\<open>find\<close> read them in. The schema declares \<^verbatim>\<open>slug\<close> unique (Media.js, line 27);
  the unique index on \<^verbatim>\<open>{ tmdbId, type }\<close> exists once \<^verbatim>\<open>createIndexes\<close>
  (config/database.js) has run, which \<open>key_index\<close> records. \<open>slug_lib\<close> is the function
  of the npm package \<^verbatim>\<open>slug\<close> that the pre-save hook of the model calls.
\<close>

record store =
  docs :: "media list"
  next_oid :: nat
  key_index :: bool
  slug_lib :: "string \<Rightarrow> string"

text \<open>The formatted detail record of \<^verbatim>\<open>formatMovieDetails\<close> and \<^verbatim>\<open>formatTVDetails\<close>.\<close>

record details =
  d_tmdbId :: int
  d_title :: string
  d_type :: media_type
  d_description :: string
  d_ageRating :: string
  d_tmdb :: score
  d_popularity :: rat
  d_status :: string
  d_rest :: payload

text \<open>One entry of a formatted listing (\<^verbatim>\<open>results\<close> of formatMoviesResponse and its siblings).\<close>

record summary =
  s_tmdbId :: int
  s_type :: media_type
  s_average :: rat

text \<open>
  The raw core records of the remote API, as far as the formatters read them; the API sends
  \<^verbatim>\<open>status\<close> as a string with every detail record.
\<close>

record tmdb_movie =
  m_id :: int
  m_title :: string
  m_overview :: string
  m_popularity :: rat
  m_vote_average :: rat
  m_vote_count :: int
  m_status :: string
  m_rest :: payload

record tmdb_tv =
  t_id :: int
  t_name :: string
  t_overview :: string
  t_popularity :: rat
  t_vote_average :: rat
  t_vote_count :: int
  t_origin_country :: "string list"
  t_original_language :: string
  t_genres :: "int list"
  t_status :: string
  t_rest :: payload

datatype sub_endpoint = Credits | Videos | WatchProviders | Keywords | ReleaseDates

datatype listing =
    PopularMovies nat
  | NowPlayingMovies
  | TopRatedMovies
  | UpcomingMovies
  | PopularTVShows nat
  | TopRatedTVShows
  | DiscoverMovies "int option" "string option" rat
  | DiscoverTVShows "int option" "string option" rat
  | Trending string string

text \<open>
  The remote catalog service: what each endpoint answers. A listing is given after
  formatting; \<open>DiscoverMovies g c v\<close> stands for the parameters \<^verbatim>\<open>with_genres\<close>,
  \<^verbatim>\<open>with_origin_country\<close> and \<^verbatim>\<open>vote_average.gte\<close>. An unchanged remote source is one
  value of this type used for several runs; since the cache of TMDBService only stores
  successful answers of the same remote, it does not change what a run reads.
\<close>

record remote =
  listing :: "listing \<Rightarrow> error + summary list"
  movie_core :: "int \<Rightarrow> error + tmdb_movie"
  movie_sub :: "sub_endpoint \<Rightarrow> int \<Rightarrow> error + payload"
  tv_core :: "int \<Rightarrow> error + tmdb_tv"
  tv_sub :: "sub_endpoint \<Rightarrow> int \<Rightarrow> error + payload"

text \<open>
  The CatalogSyncer object: the run guard \<^verbatim>\<open>isRunning\<close> and the counters of \<^verbatim>\<open>this.stats\<close>.
\<close>

record syncer =
  isRunning :: bool
  moviesAdded :: nat
  seriesAdded :: nat
  animesAdded :: nat
  updated :: nat
  errors :: nat

section \<open>TMDBService: detail fetches and helpers (unnamed/part\_003)\<close>

text \<open>Awaiting a promise and continuing: a rejection skips the continuation.\<close>

definition await :: "error + 'a \<Rightarrow> ('a \<Rightarrow> error + 'b) \<Rightarrow> error + 'b" where
  "await p k = (case p of Inl e \<Rightarrow> Inl e | Inr v \<Rightarrow> k v)"

definition isAnime :: "tmdb_tv \<Rightarrow> bool" where
  "isAnime item =
     ((''JP'' \<in> set (t_origin_country item) \<or> t_original_language item = ''ja'')
      \<and> 16 \<in> set (t_genres item))"

definition formatMovieDetails ::
  "tmdb_movie \<Rightarrow> payload \<Rightarrow> payload \<Rightarrow> payload \<Rightarrow> payload \<Rightarrow> payload \<Rightarrow> details" where
  "formatMovieDetails mv credits videos watchProviders keywords releases =
     \<lparr> d_tmdbId = m_id mv, d_title = m_title mv, d_type = Movie,
       d_description = m_overview mv,
       d_ageRating = (case map_of releases ''BR'' of None \<Rightarrow> ''L'' | Some c \<Rightarrow> if c = [] then ''L'' else c),
       d_tmdb = \<lparr> average = m_vote_average mv, count = m_vote_count mv \<rparr>,
       d_popularity = m_popularity mv,
       d_status = m_status mv,
       d_rest = m_rest mv @ credits @ videos @ watchProviders @ keywords \<rparr>"

definition formatTVDetails ::
  "tmdb_tv \<Rightarrow> payload \<Rightarrow> payload \<Rightarrow> payload \<Rightarrow> payload \<Rightarrow> details" where
  "formatTVDetails tv credits videos watchProviders keywords =
     \<lparr> d_tmdbId = t_id tv, d_title = t_name tv,
       d_type = (if isAnime tv then Anime else Series),
       d_description = t_overview tv,
       d_ageRating = (case map_of (t_rest tv) ''content_rating_BR'' of None \<Rightarrow> ''L'' | Some c \<Rightarrow> c),
       d_tmdb = \<lparr> average = t_vote_average tv, count = t_vote_count tv \<rparr>,
       d_popularity = t_popularity tv,
       d_status = t_status tv,
       d_rest = t_rest tv @ credits @ videos @ watchProviders @ keywords \<rparr>"

text \<open>
  \<^verbatim>\<open>getMovieDetails\<close> awaits \<^verbatim>\<open>Promise.all\<close> of six requests, \<^verbatim>\<open>getTVDetails\<close> of five.
  The requests leave through the FIFO queue in the order written, so the first rejection
  in that order is the one \<^verbatim>\<open>Promise.all\<close> rejects with; the catch block logs and rethrows.
\<close>

definition getMovieDetails :: "remote \<Rightarrow> int \<Rightarrow> error + details" where
  "getMovieDetails r i =
     await (movie_core r i) (\<lambda>mv.
     await (movie_sub r Credits i) (\<lambda>credits.
     await (movie_sub r Videos i) (\<lambda>videos.
     await (movie_sub r WatchProviders i) (\<lambda>watchProviders.
     await (movie_sub r Keywords i) (\<lambda>keywords.
     await (movie_sub r ReleaseDates i) (\<lambda>releases.
       Inr (formatMovieDetails mv credits videos watchProviders keywords releases)))))))"

definition getTVDetails :: "remote \<Rightarrow> int \<Rightarrow> error + details" where
  "getTVDetails r i =
     await (tv_core r i) (\<lambda>tv.
     await (tv_sub r Credits i) (\<lambda>credits.
     await (tv_sub r Videos i) (\<lambda>videos.
     await (tv_sub r WatchProviders i) (\<lambda>watchProviders.
     await (tv_sub r Keywords i) (\<lambda>keywords.
       Inr (formatTVDetails tv credits videos watchProviders keywords))))))"

text \<open>
  Strings are sequences of characters of ISO 8859-1 (code points below 256), the range of
  the Portuguese titles that the service asks the remote for. \<open>isSpace\<close> is the class
  \<^verbatim>\<open>\s\<close> there, which is also what \<^verbatim>\<open>String.prototype.trim\<close> removes. \<open>toLowerCase\<close>
  maps A to Z and the capital letters 0xC0 to 0xDE (all but the sign 0xD7) to their small
  letters. \<open>stripDiacritic\<close> is \<^verbatim>\<open>normalize('NFD')\<close> followed by the removal of the
  combining marks U+0300 to U+036F: a letter with a canonical decomposition becomes its base
  letter, every other character stays.
\<close>

definition isSpace :: "char \<Rightarrow> bool" where
  "isSpace c = (c \<in> set [CHR '' '', CHR 0x09, CHR 0x0A, CHR 0x0B, CHR 0x0C, CHR 0x0D, CHR 0xA0])"

definition toLowerCase :: "char \<Rightarrow> char" where
  "toLowerCase c =
     (let n = (of_char c :: nat) in
      if (65 \<le> n \<and> n \<le> 90) \<or> (192 \<le> n \<and> n \<le> 222 \<and> n \<noteq> 215) then char_of (n + 32) else c)"

definition stripDiacritic :: "char \<Rightarrow> char" where
  "stripDiacritic c =
     (let n = (of_char c :: nat) in
      if 192 \<le> n \<and> n \<le> 197 then CHR ''A''
      else if n = 199 then CHR ''C''
      else if 200 \<le> n \<and> n \<le> 203 then CHR ''E''
      else if 204 \<le> n \<and> n \<le> 207 then CHR ''I''
      else if n = 209 then CHR ''N''
      else if (210 \<le> n \<and> n \<le> 214) then CHR ''O''
      else if 217 \<le> n \<and> n \<le> 220 then CHR ''U''
      else if n = 221 then CHR ''Y''
      else if 224 \<le> n \<and> n \<le> 229 then CHR ''a''
      else if n = 231 then CHR ''c''
      else if 232 \<le> n \<and> n \<le> 235 then CHR ''e''
      else if 236 \<le> n \<and> n \<le> 239 then CHR ''i''
      else if n = 241 then CHR ''n''
      else if 242 \<le> n \<and> n \<le> 246 then CHR ''o''
      else if 249 \<le> n \<and> n \<le> 252 then CHR ''u''
      else if n = 253 \<or> n = 255 then CHR ''y''
      else c)"

definition isSlugChar :: "char \<Rightarrow> bool" where
  "isSlugChar c =
     (let n = (of_char c :: nat) in (97 \<le> n \<and> n \<le> 122) \<or> (48 \<le> n \<and> n \<le> 57) \<or> isSpace c)"

text \<open>\<^verbatim>\<open>replace(/p+/g, '-')\<close>: every maximal run of characters satisfying \<open>p\<close> becomes one hyphen.\<close>

fun replaceRuns :: "(char \<Rightarrow> bool) \<Rightarrow> bool \<Rightarrow> string \<Rightarrow> string" where
  "replaceRuns p inRun [] = []"
| "replaceRuns p inRun (c # cs) =
     (if p c then (if inRun then replaceRuns p True cs else CHR ''-'' # replaceRuns p True cs)
      else c # replaceRuns p False cs)"

definition trim :: "string \<Rightarrow> string" where
  "trim t = rev (dropWhile isSpace (rev (dropWhile isSpace t)))"

text \<open>
  \<^verbatim>\<open>generateSlug\<close>: lower case, removal of the diacritics, removal of everything outside
  \<^verbatim>\<open>[a-z0-9\s]\<close>, runs of white space to one hyphen, runs of hyphens to one, trim.
\<close>

definition generateSlug :: "string \<Rightarrow> string" where
  "generateSlug t =
     trim (replaceRuns (\<lambda>c. c = CHR ''-'') False
       (replaceRuns isSpace False (filter isSlugChar (map stripDiacritic (map toLowerCase t)))))"


section \<open>The Media model (backend/src/models/Media.js)\<close>

definition findByTmdbId :: "store \<Rightarrow> int \<Rightarrow> media_type \<Rightarrow> media option" where
  "findByTmdbId s i ty = find (\<lambda>m. tmdbId m = i \<and> type m = ty \<and> isActive m) (docs s)"

text \<open>
  \<^verbatim>\<open>new Media(data)\<close>: a fresh \<^verbatim>\<open>_id\<close>, the \<^verbatim>\<open>trim\<close> setter of \<^verbatim>\<open>title\<close> and the schema
  defaults of the fields the data does not give (the analytics counters, no subtitles).
\<close>

definition new_Media :: "nat \<Rightarrow> mediaData \<Rightarrow> media" where
  "new_Media i d =
     \<lparr> tmdbId = tmdbId d, title = trim (title d), type = type d, description = description d,
       rating = rating d, popularity = popularity d, slug = slug d, status = status d,
       subtitles = (case subtitles d of None \<Rightarrow> Some [] | Some given \<Rightarrow> Some given),
       rest = rest d,
       isActive = isActive d, featured = featured d, trending = trending d,
       createdAt = createdAt d, updatedAt = updatedAt d, lastSyncAt = lastSyncAt d,
       oid = i, analytics = \<lparr> views = 0, histories = [] \<rparr> \<rparr>"

text \<open>
  What the schema checks. \<^verbatim>\<open>streamingInfo.subtitles\<close> is an array of sub-documents
  (Media.js, lines 172 to 175): an element that is a string cannot be cast. \<^verbatim>\<open>status\<close> has
  the enum of lines 194 to 198, \<^verbatim>\<open>title\<close> (after \<^verbatim>\<open>trim\<close>) and \<^verbatim>\<open>description\<close> are
  required, so they are not empty; \<^verbatim>\<open>tmdbId\<close> and \<^verbatim>\<open>type\<close> are present by their types.
\<close>

fun isTrack :: "subtitle \<Rightarrow> bool" where
  "isTrack (Track language url) = True"
| "isTrack (Plain t) = False"

definition castable :: "mediaData \<Rightarrow> bool" where
  "castable d = (case subtitles d of None \<Rightarrow> True | Some given \<Rightarrow> list_all isTrack given)"

definition statusEnum :: "string list" where
  "statusEnum = [''Rumored'', ''Planned'', ''In Production'', ''Post Production'', ''Released'',
                 ''Canceled'', ''Returning Series'', ''Ended'']"

definition validates :: "mediaData \<Rightarrow> bool" where
  "validates d =
     (castable d \<and> trim (title d) \<noteq> [] \<and> description d \<noteq> [] \<and> status d \<in> set statusEnum)"

text \<open>
  \<^verbatim>\<open>media.save()\<close> of a new document: validation, which also reports what the constructor
  could not cast, the pre-save hook (a slug for a document without one, \<^verbatim>\<open>updatedAt\<close>),
  then the insert, which the unique indexes reject when the slug or, with the key index,
  the pair (tmdbId, type) is taken.
\<close>

definition preSave :: "store \<Rightarrow> int \<Rightarrow> media \<Rightarrow> media" where
  "preSave s now m =
     m\<lparr> slug := (if slug m = [] \<and> title m \<noteq> [] then slug_lib s (title m) else slug m),
        updatedAt := now \<rparr>"

definition slugTaken :: "media list \<Rightarrow> string \<Rightarrow> bool" where
  "slugTaken ds sl = (\<exists>x \<in> set ds. slug x = sl)"

definition keyTaken :: "media list \<Rightarrow> int \<Rightarrow> media_type \<Rightarrow> bool" where
  "keyTaken ds i ty = (\<exists>x \<in> set ds. tmdbId x = i \<and> type x = ty)"

definition save :: "store \<Rightarrow> int \<Rightarrow> mediaData \<Rightarrow> error + store" where
  "save s now d =
     (let m0 = new_Media (next_oid s) d in
      if \<not> validates d then Inl ValidationError
      else
        let m = preSave s now m0 in
        if slugTaken (docs s) (slug m) then Inl DuplicateKey
        else if key_index s \<and> keyTaken (docs s) (tmdbId m) (type m) then Inl DuplicateKey
        else Inr (s\<lparr> docs := docs s @ [m], next_oid := Suc (next_oid s) \<rparr>))"

text \<open>
  \<^verbatim>\<open>Media.findByIdAndUpdate(id, data)\<close>: the update is cast, which fails on subtitles given
  as strings; then the fields of the update replace those of the document with that
  \<^verbatim>\<open>_id\<close> (\<open>setFields\<close>; the title through its \<^verbatim>\<open>trim\<close> setter, the subtitles only
  when the update gives them), and \<open>extra\<close> sets what the update carries besides the fields
  of \<open>mediaData\<close>. The unique indexes reject the write when another document holds the new
  slug or key. No validator and no save hook runs.
\<close>

definition setFields :: "mediaData \<Rightarrow> media \<Rightarrow> media" where
  "setFields u m =
     m\<lparr> tmdbId := tmdbId u, title := trim (title u), type := type u, description := description u,
        rating := rating u, popularity := popularity u, slug := slug u, status := status u,
        subtitles := (case subtitles u of None \<Rightarrow> subtitles m | Some given \<Rightarrow> Some given),
        rest := rest u,
        isActive := isActive u, featured := featured u, trending := trending u,
        createdAt := createdAt u, updatedAt := updatedAt u, lastSyncAt := lastSyncAt u \<rparr>"

fun updateOne :: "(media \<Rightarrow> bool) \<Rightarrow> (media \<Rightarrow> media) \<Rightarrow> media list \<Rightarrow> media list" where
  "updateOne p f [] = []"
| "updateOne p f (x # xs) = (if p x then f x # xs else x # updateOne p f xs)"

definition findByIdAndUpdate :: "store \<Rightarrow> nat \<Rightarrow> mediaData \<Rightarrow> (media \<Rightarrow> media) \<Rightarrow> error + store" where
  "findByIdAndUpdate s i u extra =
     (if \<not> castable u then Inl CastError
      else
        case find (\<lambda>m. oid m = i) (docs s) of
          None \<Rightarrow> Inr s
        | Some m \<Rightarrow>
            let m' = extra (setFields u m); others = filter (\<lambda>x. oid x \<noteq> i) (docs s) in
            if slugTaken others (slug m') then Inl DuplicateKey
            else if key_index s \<and> keyTaken others (tmdbId m') (type m') then Inl DuplicateKey
            else Inr (s\<lparr> docs := updateOne (\<lambda>x. oid x = i) (\<lambda>x. m') (docs s) \<rparr>))"

text \<open>\<^verbatim>\<open>Media.updateMany(filter, update)\<close> for updates that leave the indexed fields alone.\<close>

definition updateMany :: "(media \<Rightarrow> bool) \<Rightarrow> (media \<Rightarrow> media) \<Rightarrow> store \<Rightarrow> store" where
  "updateMany p f s = s\<lparr> docs := map (\<lambda>m. if p m then f m else m) (docs s) \<rparr>"

section \<open>CatalogSyncer (backend/src/jobs/syncCatalog.js)\<close>

definition convertTMDBToMediaFormat :: "int \<Rightarrow> details \<Rightarrow> mediaData" where
  "convertTMDBToMediaFormat now d =
     \<lparr> tmdbId = d_tmdbId d, title = d_title d, type = d_type d,
       description = d_description d,
       rating = \<lparr> ageRating = d_ageRating d, tmdb = d_tmdb d,
                  internal = \<lparr> average = 0, count = 0 \<rparr> \<rparr>,
       popularity = d_popularity d,
       slug = generateSlug (d_title d),
       status = d_status d,
       subtitles = None,
       rest = d_rest d,
       isActive = True,
       featured = (d_popularity d > 50),
       trending = False,
       createdAt = now, updatedAt = now, lastSyncAt = now \<rparr>"

text \<open>
  One turn of the loop of \<^verbatim>\<open>processBatch\<close>: the state is the store, the syncer
  and the local counter \<^verbatim>\<open>processed\<close>. An item that exists is skipped; otherwise the
  details are fetched, converted and saved, and any exception on the way is caught and
  counted.
\<close>

definition fetchDetails :: "remote \<Rightarrow> media_type \<Rightarrow> int \<Rightarrow> error + details" where
  "fetchDetails r ty i = (if ty = Movie then getMovieDetails r i else getTVDetails r i)"

definition processItem ::
  "remote \<Rightarrow> int \<Rightarrow> media_type \<Rightarrow> summary \<Rightarrow> store \<times> syncer \<times> nat \<Rightarrow> store \<times> syncer \<times> nat" where
  "processItem r now ty item acc =
     (case acc of (s, st, processed) \<Rightarrow>
        (case findByTmdbId s (s_tmdbId item) ty of
           Some found \<Rightarrow> (s, st, processed)
         | None \<Rightarrow>
             (case await (fetchDetails r ty (s_tmdbId item))
                     (\<lambda>d. save s now (convertTMDBToMediaFormat now d)) of
                Inl e \<Rightarrow> (s, st\<lparr> errors := Suc (errors st) \<rparr>, processed)
              | Inr s' \<Rightarrow> (s', st, Suc processed))))"

definition processBatch ::
  "remote \<Rightarrow> int \<Rightarrow> summary list \<Rightarrow> media_type \<Rightarrow> store \<times> syncer \<Rightarrow> (store \<times> syncer) \<times> nat" where
  "processBatch r now items ty ss =
     (case fold (processItem r now ty) items (fst ss, snd ss, 0) of
        (s, st, processed) \<Rightarrow> ((s, st), processed))"


text \<open>
  The body of a strategy runs inside \<^verbatim>\<open>try { ... } catch\<close>: it is written in
  continuation style, one combinator per awaited call. \<open>request\<close> awaits a listing and
  passes a rejection on; \<open>batch\<close> awaits \<^verbatim>\<open>processBatch\<close>, which never throws;
  \<open>finish\<close> is the last statement, an update of the counters; \<open>tryCatch\<close> counts an
  exception in \<^verbatim>\<open>stats.errors\<close> and keeps what was written to the store before it.
\<close>

type_synonym 'a outcome = "(store \<times> syncer) \<times> (error + 'a)"

definition request ::
  "remote \<Rightarrow> listing \<Rightarrow> (summary list \<Rightarrow> store \<times> syncer \<Rightarrow> 'a outcome) \<Rightarrow> store \<times> syncer \<Rightarrow> 'a outcome" where
  "request r q k ss = (case listing r q of Inl e \<Rightarrow> (ss, Inl e) | Inr results \<Rightarrow> k results ss)"

definition batch ::
  "remote \<Rightarrow> int \<Rightarrow> summary list \<Rightarrow> media_type \<Rightarrow> (nat \<Rightarrow> store \<times> syncer \<Rightarrow> 'a outcome) \<Rightarrow>
   store \<times> syncer \<Rightarrow> 'a outcome" where
  "batch r now items ty k ss = (case processBatch r now items ty ss of (ss', processed) \<Rightarrow> k processed ss')"

definition finish :: "(syncer \<Rightarrow> syncer) \<Rightarrow> store \<times> syncer \<Rightarrow> unit outcome" where
  "finish f ss = ((fst ss, f (snd ss)), Inr ())"

definition tryCatch :: "(store \<times> syncer \<Rightarrow> unit outcome) \<Rightarrow> store \<times> syncer \<Rightarrow> store \<times> syncer" where
  "tryCatch body ss =
     (case body ss of
        (ss', Inl e) \<Rightarrow> (fst ss', (snd ss')\<lparr> errors := Suc (errors (snd ss')) \<rparr>)
      | (ss', Inr u) \<Rightarrow> ss')"

definition minRating :: rat where "minRating = 6"
definition maxPagesPerSync :: nat where "maxPagesPerSync = 20"
definition maxItemsPerGenre :: nat where "maxItemsPerGenre = 50"
definition batchSize :: nat where "batchSize = 10"
definition priorityGenres_movies :: "int list" where
  "priorityGenres_movies = [28, 35, 18, 53, 878, 27, 12, 14]"
definition priorityGenres_tv :: "int list" where
  "priorityGenres_tv = [18, 35, 80, 10759, 9648, 16]"

text \<open>
  The loop over the results of one page: admitted items are pushed on \<open>pending\<close>, which is
  processed and emptied whenever it holds \<open>batchSize\<close> items, and once more after the
  loop when it is not empty.
\<close>

fun batchLoop ::
  "remote \<Rightarrow> int \<Rightarrow> media_type \<Rightarrow> (summary \<Rightarrow> bool) \<Rightarrow> summary list \<Rightarrow> summary list \<Rightarrow>
   (store \<times> syncer) \<times> nat \<Rightarrow> (store \<times> syncer) \<times> nat" where
  "batchLoop r now ty admit [] pending (ss, added) =
     (if pending \<noteq> [] then
        (case processBatch r now pending ty ss of (ss', processed) \<Rightarrow> (ss', added + processed))
      else (ss, added))"
| "batchLoop r now ty admit (x # xs) pending (ss, added) =
     (let pending' = (if admit x then pending @ [x] else pending) in
      if length pending' \<ge> batchSize then
        (case processBatch r now pending' ty ss of
           (ss', processed) \<Rightarrow> batchLoop r now ty admit xs [] (ss', added + processed))
      else batchLoop r now ty admit xs pending' (ss, added))"

fun pagesLoop ::
  "remote \<Rightarrow> int \<Rightarrow> media_type \<Rightarrow> (nat \<Rightarrow> listing) \<Rightarrow> (summary \<Rightarrow> bool) \<Rightarrow> nat list \<Rightarrow> nat \<Rightarrow>
   (nat \<Rightarrow> store \<times> syncer \<Rightarrow> 'a outcome) \<Rightarrow> store \<times> syncer \<Rightarrow> 'a outcome" where
  "pagesLoop r now ty listingOf admit [] added k ss = k added ss"
| "pagesLoop r now ty listingOf admit (page # pages) added k ss =
     (case listing r (listingOf page) of
        Inl e \<Rightarrow> (ss, Inl e)
      | Inr results \<Rightarrow>
          (case batchLoop r now ty admit results [] (ss, added) of
             (ss', added') \<Rightarrow> pagesLoop r now ty listingOf admit pages added' k ss'))"

definition syncPopularMovies :: "remote \<Rightarrow> int \<Rightarrow> store \<times> syncer \<Rightarrow> store \<times> syncer" where
  "syncPopularMovies r now =
     tryCatch
       (pagesLoop r now Movie PopularMovies (\<lambda>m. s_average m \<ge> minRating)
          [1 ..< Suc maxPagesPerSync] 0 (\<lambda>n1.
        request r NowPlayingMovies (\<lambda>nowPlaying.
        batch r now (take 50 (filter (\<lambda>m. s_average m \<ge> minRating) nowPlaying)) Movie (\<lambda>n2.
        request r TopRatedMovies (\<lambda>topRated.
        batch r now (take 30 topRated) Movie (\<lambda>n3.
        finish (\<lambda>st. st\<lparr> moviesAdded := moviesAdded st + (n1 + n2 + n3) \<rparr>)))))))"

definition syncPopularSeries :: "remote \<Rightarrow> int \<Rightarrow> store \<times> syncer \<Rightarrow> store \<times> syncer" where
  "syncPopularSeries r now =
     tryCatch
       (pagesLoop r now Series PopularTVShows (\<lambda>m. s_average m \<ge> minRating \<and> s_type m = Series)
          [1 ..< Suc maxPagesPerSync] 0 (\<lambda>n1.
        request r TopRatedTVShows (\<lambda>topRated.
        batch r now (take 30 (filter (\<lambda>m. s_type m = Series) topRated)) Series (\<lambda>n2.
        finish (\<lambda>st. st\<lparr> seriesAdded := seriesAdded st + (n1 + n2) \<rparr>)))))"

definition syncPopularAnimes :: "remote \<Rightarrow> int \<Rightarrow> store \<times> syncer \<Rightarrow> store \<times> syncer" where
  "syncPopularAnimes r now =
     tryCatch
       (request r (DiscoverTVShows (Some 16) (Some ''JP'') (65 / 10)) (\<lambda>animes.
        batch r now (take 100 (filter (\<lambda>m. s_type m = Anime) animes)) Anime (\<lambda>n1.
        request r (Trending ''tv'' ''week'') (\<lambda>trendingAnimes.
        batch r now (take 20 (filter (\<lambda>m. s_type m = Anime) trendingAnimes)) Anime (\<lambda>n2.
        finish (\<lambda>st. st\<lparr> animesAdded := animesAdded st + (n1 + n2) \<rparr>))))))"

fun genresLoop ::
  "remote \<Rightarrow> int \<Rightarrow> media_type \<Rightarrow> (int \<Rightarrow> listing) \<Rightarrow> (summary \<Rightarrow> bool) \<Rightarrow> int list \<Rightarrow>
   (store \<times> syncer \<Rightarrow> 'a outcome) \<Rightarrow> store \<times> syncer \<Rightarrow> 'a outcome" where
  "genresLoop r now ty listingOf admit [] k ss = k ss"
| "genresLoop r now ty listingOf admit (genreId # genreIds) k ss =
     (case listing r (listingOf genreId) of
        Inl e \<Rightarrow> (ss, Inl e)
      | Inr results \<Rightarrow>
          (case processBatch r now (filter admit (take maxItemsPerGenre results)) ty ss of
             (ss', processed) \<Rightarrow> genresLoop r now ty listingOf admit genreIds k ss'))"

definition syncByGenres :: "remote \<Rightarrow> int \<Rightarrow> store \<times> syncer \<Rightarrow> store \<times> syncer" where
  "syncByGenres r now =
     tryCatch
       (genresLoop r now Movie (\<lambda>g. DiscoverMovies (Some g) None minRating)
          (\<lambda>m. s_average m \<ge> minRating) priorityGenres_movies
       (genresLoop r now Series (\<lambda>g. DiscoverTVShows (Some g) None minRating)
          (\<lambda>m. s_average m \<ge> minRating \<and> s_type m = Series) priorityGenres_tv
       (finish (\<lambda>st. st))))"

definition syncBrazilianContent :: "remote \<Rightarrow> int \<Rightarrow> store \<times> syncer \<Rightarrow> store \<times> syncer" where
  "syncBrazilianContent r now =
     tryCatch
       (request r (DiscoverMovies None (Some ''BR'') 5) (\<lambda>brazilianMovies.
        batch r now (take 50 brazilianMovies) Movie (\<lambda>moviesProcessed.
        request r (DiscoverTVShows None (Some ''BR'') 5) (\<lambda>brazilianSeries.
        batch r now (take 30 (filter (\<lambda>m. s_type m = Series) brazilianSeries)) Series (\<lambda>seriesProcessed.
        finish (\<lambda>st. st))))))"

text \<open>
  \<^verbatim>\<open>syncTrendingContent\<close>: reset every flag, collect the \<^verbatim>\<open>_id\<close> of each of the first 50
  trending items that is found, before or after an attempt to add it, and flag those.
  \<open>trendingItem\<close> is one turn of the loop over the items.
\<close>

definition trendingItem ::
  "remote \<Rightarrow> int \<Rightarrow> summary \<Rightarrow> (store \<times> syncer) \<times> nat list \<Rightarrow> (store \<times> syncer) \<times> nat list" where
  "trendingItem r now item acc =
     (case acc of (ss, trendingIds) \<Rightarrow>
        (case findByTmdbId (fst ss) (s_tmdbId item) (s_type item) of
           Some found \<Rightarrow> (ss, trendingIds @ [oid found])
         | None \<Rightarrow>
             (case processBatch r now [item] (s_type item) ss of
                (ss', processed) \<Rightarrow>
                  if processed > 0 then
                    (case findByTmdbId (fst ss') (s_tmdbId item) (s_type item) of
                       Some newMedia \<Rightarrow> (ss', trendingIds @ [oid newMedia])
                     | None \<Rightarrow> (ss', trendingIds))
                  else (ss', trendingIds))))"

definition syncTrendingContent :: "remote \<Rightarrow> int \<Rightarrow> store \<times> syncer \<Rightarrow> store \<times> syncer" where
  "syncTrendingContent r now ss =
     tryCatch
       (request r (Trending ''all'' ''week'') (\<lambda>trendingWeek ss1.
          (case fold (trendingItem r now) (take 50 trendingWeek) (ss1, []) of
             (ss2, trendingIds) \<Rightarrow>
               ((updateMany (\<lambda>m. oid m \<in> set trendingIds)
                   (\<lambda>m. m\<lparr> trending := True, updatedAt := now \<rparr>) (fst ss2), snd ss2), Inr ()))))
       (updateMany (\<lambda>m. True) (\<lambda>m. m\<lparr> trending := False \<rparr>) (fst ss), snd ss)"

text \<open>
  \<^verbatim>\<open>updateExistingContent\<close>: up to 200 documents not synchronised for seven days are
  fetched again; the update is the converted detail with the analytics and
  \<^verbatim>\<open>createdAt\<close> of the document as read by the query. The slices of \<open>batchSize\<close> only
  place the delays, so the two nested loops are one loop here. A failed fetch or write is
  logged by the inner catch and counts nowhere.
\<close>

definition sevenDays :: int where "sevenDays = 7 * 24 * 60 * 60 * 1000"

definition updateMedia :: "remote \<Rightarrow> int \<Rightarrow> media \<Rightarrow> store \<times> nat \<Rightarrow> store \<times> nat" where
  "updateMedia r now m acc =
     (case acc of (s, n) \<Rightarrow>
        (case await (fetchDetails r (type m) (tmdbId m))
                (\<lambda>updatedDetails.
                   findByIdAndUpdate s (oid m)
                     ((convertTMDBToMediaFormat now updatedDetails)
                        \<lparr> lastSyncAt := now, updatedAt := now, createdAt := createdAt m \<rparr>)
                     (\<lambda>x. x\<lparr> analytics := analytics m \<rparr>)) of
           Inl e \<Rightarrow> (s, n)
         | Inr s' \<Rightarrow> (s', Suc n)))"

definition updateExistingContent :: "remote \<Rightarrow> int \<Rightarrow> store \<times> syncer \<Rightarrow> store \<times> syncer" where
  "updateExistingContent r now ss =
     (let existingMedia = take 200 (filter (\<lambda>m. lastSyncAt m < now - sevenDays) (docs (fst ss))) in
      case fold (updateMedia r now) existingMedia (fst ss, 0) of
        (s', n) \<Rightarrow> (s', (snd ss)\<lparr> updated := updated (snd ss) + n \<rparr>))"

definition oneYear :: int where "oneYear = 365 * 24 * 60 * 60 * 1000"

definition obsolete :: "int \<Rightarrow> media \<Rightarrow> bool" where
  "obsolete now m =
     (isActive m \<and> views (analytics m) < 5 \<and> createdAt m < now - oneYear
      \<and> average (tmdb (rating m)) < 5)"

definition cleanupObsoleteContent :: "int \<Rightarrow> store \<times> syncer \<Rightarrow> store \<times> syncer" where
  "cleanupObsoleteContent now ss =
     (updateMany (obsolete now) (\<lambda>m. m\<lparr> isActive := False, updatedAt := now \<rparr>) (fst ss), snd ss)"

definition resetStats :: "syncer \<Rightarrow> syncer" where
  "resetStats st =
     st\<lparr> moviesAdded := 0, seriesAdded := 0, animesAdded := 0, updated := 0, errors := 0 \<rparr>"

definition fullSync :: "remote \<Rightarrow> int \<Rightarrow> store \<times> syncer \<Rightarrow> store \<times> syncer" where
  "fullSync r now ss =
     (if isRunning (snd ss) then ss
      else
        let ss0 = (fst ss, (resetStats (snd ss))\<lparr> isRunning := True \<rparr>);
            ss1 = syncPopularMovies r now ss0;
            ss2 = syncPopularSeries r now ss1;
            ss3 = syncPopularAnimes r now ss2;
            ss4 = syncByGenres r now ss3;
            ss5 = syncBrazilianContent r now ss4;
            ss6 = syncTrendingContent r now ss5;
            ss7 = updateExistingContent r now ss6;
            ss8 = cleanupObsoleteContent now ss7
        in (fst ss8, (snd ss8)\<lparr> isRunning := False \<rparr>))"

definition syncNewReleases :: "remote \<Rightarrow> int \<Rightarrow> store \<times> syncer \<Rightarrow> store \<times> syncer" where
  "syncNewReleases r now ss =
     (if isRunning (snd ss) then ss
      else
        (case (request r UpcomingMovies (\<lambda>upcomingMovies.
               request r NowPlayingMovies (\<lambda>nowPlayingMovies.
               batch r now (take 20 (filter (\<lambda>m. s_average m \<ge> 6) nowPlayingMovies)) Movie (\<lambda>n1.
               batch r now (take 10 (filter (\<lambda>m. s_average m \<ge> 7) upcomingMovies)) Movie (\<lambda>n2.
               finish (\<lambda>st. st))))))
              (fst ss, (snd ss)\<lparr> isRunning := True \<rparr>) of
           (ss', result) \<Rightarrow> (fst ss', (snd ss')\<lparr> isRunning := False \<rparr>)))"

section \<open>Plain TMDBService and ContentAggregator (services/tmdbService.js, unnamed/part\_006)\<close>

text \<open>
  The plain service formats the same remote records into the same detail fields; it asks
  four endpoints, reads the age rating and the keywords from the core record, and calls
  every show a series.
\<close>

definition plain_formatMovieDetails :: "tmdb_movie \<Rightarrow> payload \<Rightarrow> payload \<Rightarrow> payload \<Rightarrow> details" where
  "plain_formatMovieDetails mv credits videos watchProviders =
     \<lparr> d_tmdbId = m_id mv, d_title = m_title mv, d_type = Movie,
       d_description = m_overview mv,
       d_ageRating = (case map_of (m_rest mv) ''BR'' of None \<Rightarrow> ''L'' | Some c \<Rightarrow> if c = [] then ''L'' else c),
       d_tmdb = \<lparr> average = m_vote_average mv, count = m_vote_count mv \<rparr>,
       d_popularity = m_popularity mv,
       d_status = m_status mv,
       d_rest = m_rest mv @ credits @ videos @ watchProviders \<rparr>"

definition plain_formatTVDetails :: "tmdb_tv \<Rightarrow> payload \<Rightarrow> payload \<Rightarrow> payload \<Rightarrow> details" where
  "plain_formatTVDetails tv credits videos watchProviders =
     \<lparr> d_tmdbId = t_id tv, d_title = t_name tv, d_type = Series,
       d_description = t_overview tv,
       d_ageRating = (case map_of (t_rest tv) ''content_rating_BR'' of None \<Rightarrow> ''L'' | Some c \<Rightarrow> c),
       d_tmdb = \<lparr> average = t_vote_average tv, count = t_vote_count tv \<rparr>,
       d_popularity = t_popularity tv,
       d_status = t_status tv,
       d_rest = t_rest tv @ credits @ videos @ watchProviders \<rparr>"

definition plain_getMovieDetails :: "remote \<Rightarrow> int \<Rightarrow> error + details" where
  "plain_getMovieDetails r i =
     await (movie_core r i) (\<lambda>mv.
     await (movie_sub r Credits i) (\<lambda>credits.
     await (movie_sub r Videos i) (\<lambda>videos.
     await (movie_sub r WatchProviders i) (\<lambda>watchProviders.
       Inr (plain_formatMovieDetails mv credits videos watchProviders)))))"

definition plain_getTVDetails :: "remote \<Rightarrow> int \<Rightarrow> error + details" where
  "plain_getTVDetails r i =
     await (tv_core r i) (\<lambda>tv.
     await (tv_sub r Credits i) (\<lambda>credits.
     await (tv_sub r Videos i) (\<lambda>videos.
     await (tv_sub r WatchProviders i) (\<lambda>watchProviders.
       Inr (plain_formatTVDetails tv credits videos watchProviders)))))"

definition convertMovieToMediaFormat :: "int \<Rightarrow> details \<Rightarrow> mediaData" where
  "convertMovieToMediaFormat now d =
     \<lparr> tmdbId = d_tmdbId d, title = d_title d, type = Movie,
       description = d_description d,
       rating = \<lparr> ageRating = d_ageRating d, tmdb = d_tmdb d,
                  internal = \<lparr> average = 0, count = 0 \<rparr> \<rparr>,
       popularity = d_popularity d,
       slug = generateSlug (d_title d),
       status = d_status d,
       subtitles = Some [Plain ''pt-BR'', Plain ''en''],
       rest = d_rest d,
       isActive = True,
       featured = (d_popularity d > 50),
       trending = (d_popularity d > 100),
       createdAt = now, updatedAt = now, lastSyncAt = now \<rparr>"

definition convertTVToMediaFormat :: "int \<Rightarrow> details \<Rightarrow> mediaData" where
  "convertTVToMediaFormat now d =
     \<lparr> tmdbId = d_tmdbId d, title = d_title d, type = Series,
       description = d_description d,
       rating = \<lparr> ageRating = d_ageRating d, tmdb = d_tmdb d,
                  internal = \<lparr> average = 0, count = 0 \<rparr> \<rparr>,
       popularity = d_popularity d,
       slug = generateSlug (d_title d),
       status = d_status d,
       subtitles = Some [Plain ''pt-BR'', Plain ''en''],
       rest = d_rest d,
       isActive = True,
       featured = (d_popularity d > 50),
       trending = (d_popularity d > 100),
       createdAt = now, updatedAt = now, lastSyncAt = now \<rparr>"

text \<open>
  \<^verbatim>\<open>processAndSaveMovie\<close> and \<^verbatim>\<open>processAndSaveTVShow\<close>: the existing document (found by
  \<^verbatim>\<open>findOne({ tmdbId, type })\<close>, active or not) or the saved one; \<^verbatim>\<open>null\<close> after an error.
\<close>

definition findOneByKey :: "store \<Rightarrow> int \<Rightarrow> media_type \<Rightarrow> media option" where
  "findOneByKey s i ty = find (\<lambda>m. tmdbId m = i \<and> type m = ty) (docs s)"

definition processAndSaveMovie :: "remote \<Rightarrow> int \<Rightarrow> int \<Rightarrow> store \<Rightarrow> store \<times> media option" where
  "processAndSaveMovie r now i s =
     (case findOneByKey s i Movie of
        Some existingMedia \<Rightarrow> (s, Some existingMedia)
      | None \<Rightarrow>
          (case await (plain_getMovieDetails r i)
                  (\<lambda>d. save s now (convertMovieToMediaFormat now d)) of
             Inl e \<Rightarrow> (s, None)
           | Inr s' \<Rightarrow> (s', Some (last (docs s')))))"

definition processAndSaveTVShow :: "remote \<Rightarrow> int \<Rightarrow> int \<Rightarrow> store \<Rightarrow> store \<times> media option" where
  "processAndSaveTVShow r now i s =
     (case findOneByKey s i Series of
        Some existingMedia \<Rightarrow> (s, Some existingMedia)
      | None \<Rightarrow>
          (case await (plain_getTVDetails r i)
                  (\<lambda>d. save s now (convertTVToMediaFormat now d)) of
             Inl e \<Rightarrow> (s, None)
           | Inr s' \<Rightarrow> (s', Some (last (docs s')))))"

text \<open>
  \<^verbatim>\<open>updateExistingContent\<close> of ContentAggregator: up to 100 stale documents; a movie or a
  series is converted again and the update is given \<^verbatim>\<open>createdAt\<close> and \<^verbatim>\<open>rating.internal\<close>
  of the document as read (the key \<^verbatim>\<open>views\<close> of the update is not a path of the schema and
  is dropped); an exception of the fetch or of the write is caught and the document is not
  counted; a document of another type is counted and left alone.
\<close>

definition agg_updateMedia :: "remote \<Rightarrow> int \<Rightarrow> media \<Rightarrow> store \<times> nat \<Rightarrow> store \<times> nat" where
  "agg_updateMedia r now m acc =
     (case acc of (s, n) \<Rightarrow>
        if type m = Movie then
          (case await (plain_getMovieDetails r (tmdbId m))
                  (\<lambda>updatedDetails.
                     let u = convertMovieToMediaFormat now updatedDetails in
                     findByIdAndUpdate s (oid m)
                       (u\<lparr> createdAt := createdAt m,
                          rating := (rating u)\<lparr> internal := internal (rating m) \<rparr> \<rparr>)
                       (\<lambda>x. x)) of
             Inl e \<Rightarrow> (s, n)
           | Inr s' \<Rightarrow> (s', Suc n))
        else if type m = Series then
          (case await (plain_getTVDetails r (tmdbId m))
                  (\<lambda>updatedDetails.
                     let u = convertTVToMediaFormat now updatedDetails in
                     findByIdAndUpdate s (oid m)
                       (u\<lparr> createdAt := createdAt m,
                          rating := (rating u)\<lparr> internal := internal (rating m) \<rparr> \<rparr>)
                       (\<lambda>x. x)) of
             Inl e \<Rightarrow> (s, n)
           | Inr s' \<Rightarrow> (s', Suc n))
        else (s, Suc n))"

definition agg_updateExistingContent :: "remote \<Rightarrow> int \<Rightarrow> store \<Rightarrow> store \<times> nat" where
  "agg_updateExistingContent r now s =
     fold (agg_updateMedia r now)
       (take 100 (filter (\<lambda>m. lastSyncAt m < now - sevenDays) (docs s))) (s, 0)"

section \<open>The cleanup of scripts/syncCatalog.js\<close>

text \<open>
  The filter of the script gives \<^verbatim>\<open>rating\<close> the value \<^verbatim>\<open>{ 'tmdb.average': { $lt: 5.0 } }\<close>.
  A query value that is a document whose first key is not an operator is an equality
  condition on the whole embedded document, so the condition compares the stored rating
  sub-document, field by field and in order, with that literal document.
\<close>

datatype bson = BNum rat | BStr string | BDoc "(string \<times> bson) list"

definition score_bson :: "score \<Rightarrow> bson" where
  "score_bson sc = BDoc [(''average'', BNum (average sc)), (''count'', BNum (of_int (count sc)))]"

definition rating_bson :: "rating \<Rightarrow> bson" where
  "rating_bson rt =
     BDoc [(''ageRating'', BStr (ageRating rt)), (''tmdb'', score_bson (tmdb rt)),
           (''internal'', score_bson (internal rt))]"

definition script_obsolete :: "int \<Rightarrow> media \<Rightarrow> bool" where
  "script_obsolete now m =
     (isActive m \<and> views (analytics m) < 10 \<and> createdAt m < now - oneYear
      \<and> rating_bson (rating m) = BDoc [(''tmdb.average'', BDoc [(''$lt'', BNum 5)])])"

definition script_cleanupObsoleteContent :: "int \<Rightarrow> store \<times> syncer \<Rightarrow> store \<times> syncer" where
  "script_cleanupObsoleteContent now ss =
     (updateMany (script_obsolete now) (\<lambda>m. m\<lparr> isActive := False, updatedAt := now \<rparr>) (fst ss), snd ss)"

section \<open>The trending pass of scripts/syncCatalog.js\<close>

text \<open>
  \<^verbatim>\<open>syncTrendingContent\<close> of the script returns at once while a synchronisation runs.
  Otherwise it resets every flag, then flags the stored movies whose \<^verbatim>\<open>tmdbId\<close> is among
  the first 20 popular movies, then the stored series among the first 20 popular series.
  It writes with \<^verbatim>\<open>updateMany\<close> only; a rejected request ends the pass where it stands,
  and \<^verbatim>\<open>finally\<close> clears \<^verbatim>\<open>isRunning\<close>.
\<close>

definition script_syncTrendingContent :: "remote \<Rightarrow> int \<Rightarrow> store \<times> syncer \<Rightarrow> store \<times> syncer" where
  "script_syncTrendingContent r now ss =
     (if isRunning (snd ss) then ss
      else
        let s0 = updateMany (\<lambda>m. True) (\<lambda>m. m\<lparr> trending := False \<rparr>) (fst ss);
            idle' = (snd ss)\<lparr> isRunning := False \<rparr>
        in
        (case listing r (PopularMovies 1) of
           Inl e \<Rightarrow> (s0, idle')
         | Inr trendingMovies \<Rightarrow>
             let movieIds = map s_tmdbId (take 20 trendingMovies);
                 s1 = updateMany (\<lambda>m. tmdbId m \<in> set movieIds \<and> type m = Movie)
                        (\<lambda>m. m\<lparr> trending := True, updatedAt := now \<rparr>) s0
             in
             (case listing r (PopularTVShows 1) of
                Inl e \<Rightarrow> (s1, idle')
              | Inr trendingSeries \<Rightarrow>
                  let seriesIds = map s_tmdbId (take 20 trendingSeries) in
                  (updateMany (\<lambda>m. tmdbId m \<in> set seriesIds \<and> type m = Series)
                     (\<lambda>m. m\<lparr> trending := True, updatedAt := now \<rparr>) s1, idle'))))"

section \<open>TMDBService: the request queue and the cache (unnamed/part\_003)\<close>

text \<open>
  \<^verbatim>\<open>makeRequest(endpoint, params)\<close> receives the endpoint and a flat object of parameters whose
  values are numbers, strings and booleans; numbers are integers here. \<^verbatim>\<open>response.data\<close>
  is the parsed object of a JSON answer, or the text of an answer that is not JSON;
  \<^verbatim>\<open>if (cached)\<close> reads its truthiness, and of these values only the empty text is falsy.
\<close>

datatype pvalue = PNum int | PStr string | PBool bool

type_synonym params = "(string \<times> pvalue) list"

datatype body = Object payload | Text string

fun truthy :: "body \<Rightarrow> bool" where
  "truthy (Object obj) = True"
| "truthy (Text t) = (t \<noteq> [])"

text \<open>
  \<^verbatim>\<open>JSON.stringify(params)\<close> for such an object: the members in insertion order, keys and
  strings between double quotes, with the double quote and the backslash escaped (control
  characters do not occur in them).
\<close>

fun decimal :: "nat \<Rightarrow> string" where
  "decimal n = (if n < 10 then [char_of (48 + n)] else decimal (n div 10) @ [char_of (48 + n mod 10)])"

definition quoted :: "string \<Rightarrow> string" where
  "quoted t = [CHR 0x22] @ concat (map (\<lambda>c. if c = CHR 0x22 \<or> c = CHR 0x5C then [CHR 0x5C, c] else [c]) t) @ [CHR 0x22]"

fun stringify_value :: "pvalue \<Rightarrow> string" where
  "stringify_value (PNum i) = (if i < 0 then CHR ''-'' # decimal (nat (- i)) else decimal (nat i))"
| "stringify_value (PStr t) = quoted t"
| "stringify_value (PBool b) = (if b then ''true'' else ''false'')"

fun commas :: "string list \<Rightarrow> string" where
  "commas [] = []"
| "commas [x] = x"
| "commas (x # y # ys) = x @ '','' @ commas (y # ys)"

definition JSON_stringify :: "params \<Rightarrow> string" where
  "JSON_stringify ps = ''{'' @ commas (map (\<lambda>(k, v). quoted k @ '':'' @ stringify_value v) ps) @ ''}''"

text \<open>
  An element of \<^verbatim>\<open>requestQueue\<close>. The pair \<^verbatim>\<open>resolve\<close>, \<^verbatim>\<open>reject\<close> of the promise
  that \<^verbatim>\<open>makeRequest\<close> returns is the number of that promise, \<open>ticket\<close>: promises are
  numbered in the order in which they are created.
\<close>

record entry =
  endpoint :: string
  params :: params
  ticket :: nat
  cacheKey :: string

text \<open>
  The remote service as \<^verbatim>\<open>axios.get\<close> sees it: for a request issued at an instant, how many
  milliseconds the answer takes and whether it is a rejection (network error or a status
  outside 2xx) or the data of the response.
\<close>

type_synonym server = "string \<Rightarrow> params \<Rightarrow> int \<Rightarrow> nat \<times> (error + body)"

text \<open>
  The state of the service object: the NodeCache, \<^verbatim>\<open>requestQueue\<close>,
  \<^verbatim>\<open>isProcessingQueue\<close>, and where the one running \<^verbatim>\<open>processQueue\<close> is suspended: at
  \<^verbatim>\<open>await axios.get(...)\<close>, with the instant and the outcome of the answer it waits for, or
  at \<^verbatim>\<open>await this.delay(...)\<close>, with the instant at which the timer fires. \<open>outbound\<close>
  records every call of \<^verbatim>\<open>axios.get\<close> with its instant, \<open>settlements\<close> every call of
  \<^verbatim>\<open>resolve\<close> or \<^verbatim>\<open>reject\<close> with its instant, the queue element it settles and
  the outcome, and \<open>promises\<close> counts the promises created.
\<close>

datatype awaiting = Nothing | Response entry int "error + body" | Timer int

record service =
  cache :: "string \<Rightarrow> (body \<times> int) option"
  requestQueue :: "entry list"
  isProcessingQueue :: bool
  awaiting :: awaiting
  promises :: nat
  outbound :: "(int \<times> entry) list"
  settlements :: "(int \<times> entry \<times> (error + body)) list"

definition stdTTL :: int where "stdTTL = 3600"

definition requestDelay :: int where "requestDelay = 250"

definition axios_timeout :: int where "axios_timeout = 10000"

text \<open>
  node-cache with \<^verbatim>\<open>stdTTL: 3600\<close>: \<^verbatim>\<open>set\<close> stores the value with the expiry instant
  \<open>now + stdTTL * 1000\<close>, and \<^verbatim>\<open>get\<close> answers \<^verbatim>\<open>undefined\<close> for a key that is absent
  or whose expiry instant is earlier than \<open>now\<close>. The periodic check
  (\<^verbatim>\<open>checkperiod\<close>) deletes entries by the same test, so it changes no answer of \<^verbatim>\<open>get\<close>.
\<close>

definition cache_get :: "(string \<Rightarrow> (body \<times> int) option) \<Rightarrow> string \<Rightarrow> int \<Rightarrow> body option" where
  "cache_get c k now = (case c k of None \<Rightarrow> None | Some (v, t) \<Rightarrow> if t < now then None else Some v)"

definition cache_set ::
  "(string \<Rightarrow> (body \<times> int) option) \<Rightarrow> string \<Rightarrow> body \<Rightarrow> int \<Rightarrow> (string \<Rightarrow> (body \<times> int) option)" where
  "cache_set c k v now = c(k \<mapsto> (v, now + stdTTL * 1000))"

text \<open>
  \<^verbatim>\<open>axios.get\<close> with \<^verbatim>\<open>timeout: 10000\<close>: an answer that takes longer is a rejection at the
  timeout. The result is the instant at which the promise settles and its outcome.
\<close>

definition axios_get :: "server \<Rightarrow> entry \<Rightarrow> int \<Rightarrow> int \<times> (error + body)" where
  "axios_get srv e now =
     (case srv (endpoint e) (params e) now of
        (latency, res) \<Rightarrow>
          if int latency > axios_timeout then (now + axios_timeout, Inl RequestFailed)
          else (now + int latency, res))"

text \<open>
  \<^verbatim>\<open>processQueue\<close>. \<open>loopHead\<close> is the test of the \<^verbatim>\<open>while\<close> loop and its body up to
  \<^verbatim>\<open>await axios.get\<close>: with an empty queue the loop ends and \<^verbatim>\<open>isProcessingQueue\<close> is
  cleared; otherwise the first element is shifted and requested. \<open>afterResponse\<close> is the
  body from there on: a response is cached and resolves the promise, a rejection rejects it;
  then, if the queue is not empty, the loop sleeps for \<^verbatim>\<open>requestDelay\<close>, and otherwise it
  goes to the loop test at once.
\<close>

definition loopHead :: "server \<Rightarrow> int \<Rightarrow> service \<Rightarrow> service" where
  "loopHead srv now s =
     (case requestQueue s of
        [] \<Rightarrow> s\<lparr> isProcessingQueue := False, awaiting := Nothing \<rparr>
      | e # others \<Rightarrow>
          (case axios_get srv e now of
             (completes, res) \<Rightarrow>
               s\<lparr> requestQueue := others, outbound := outbound s @ [(now, e)],
                  awaiting := Response e completes res \<rparr>))"

definition afterResponse :: "server \<Rightarrow> int \<Rightarrow> entry \<Rightarrow> error + body \<Rightarrow> service \<Rightarrow> service" where
  "afterResponse srv now e res s =
     (let s1 = (case res of
                  Inr data \<Rightarrow> s\<lparr> cache := cache_set (cache s) (cacheKey e) data now,
                                 settlements := settlements s @ [(now, e, Inr data)] \<rparr>
                | Inl err \<Rightarrow> s\<lparr> settlements := settlements s @ [(now, e, Inl err)] \<rparr>)
      in if requestQueue s1 \<noteq> [] then s1\<lparr> awaiting := Timer (now + requestDelay) \<rparr>
         else loopHead srv now s1)"

definition processQueue :: "server \<Rightarrow> int \<Rightarrow> service \<Rightarrow> service" where
  "processQueue srv now s =
     (if isProcessingQueue s \<or> requestQueue s = [] then s
      else loopHead srv now (s\<lparr> isProcessingQueue := True \<rparr>))"

text \<open>
  \<^verbatim>\<open>makeRequest\<close>: a truthy cached value is returned; otherwise the request is pushed on
  the queue inside the executor of a new promise, and \<^verbatim>\<open>processQueue\<close> is called.
\<close>

datatype reply = Cached body | Pending nat

definition enqueue :: "string \<Rightarrow> params \<Rightarrow> string \<Rightarrow> service \<Rightarrow> service" where
  "enqueue ep ps ckey s =
     s\<lparr> requestQueue := requestQueue s @ [\<lparr> endpoint = ep, params = ps, ticket = promises s, cacheKey = ckey \<rparr>],
        promises := Suc (promises s) \<rparr>"

definition makeRequest :: "server \<Rightarrow> int \<Rightarrow> string \<Rightarrow> params \<Rightarrow> service \<Rightarrow> reply \<times> service" where
  "makeRequest srv now ep ps s =
     (let ckey = ep @ ''_'' @ JSON_stringify ps in
      case cache_get (cache s) ckey now of
        Some cached \<Rightarrow>
          if truthy cached then (Cached cached, s)
          else (Pending (promises s), processQueue srv now (enqueue ep ps ckey s))
      | None \<Rightarrow> (Pending (promises s), processQueue srv now (enqueue ep ps ckey s)))"

text \<open>
  The event loop. The suspended \<^verbatim>\<open>processQueue\<close> is resumed at the instant \<open>due\<close>;
  \<open>settle srv (Some t)\<close> runs every resumption that is due at the instant \<open>t\<close> or
  before, and \<open>settle srv None\<close> runs them all. \<open>pendingWork\<close> decreases at each
  resumption, so the queue is always drained. A caller calls \<^verbatim>\<open>makeRequest\<close> at an
  instant; what was due by that instant has happened. So a caller that awaits a call and
  then makes the next one makes it at the instant at which the first settles, when
  \<^verbatim>\<open>processQueue\<close> has run on from \<^verbatim>\<open>resolve\<close> to its next \<^verbatim>\<open>await\<close> or to its end:
  \<^verbatim>\<open>resolve\<close> only schedules the continuation of the caller. \<open>run\<close> is a sequence of
  calls on a service, followed by everything that is still due.
\<close>

definition due :: "service \<Rightarrow> int option" where
  "due s = (case awaiting s of Nothing \<Rightarrow> None | Response e t res \<Rightarrow> Some t | Timer t \<Rightarrow> Some t)"

definition fire :: "server \<Rightarrow> service \<Rightarrow> service" where
  "fire srv s =
     (case awaiting s of
        Nothing \<Rightarrow> s
      | Response e t res \<Rightarrow> afterResponse srv t e res s
      | Timer t \<Rightarrow> loopHead srv t s)"

definition dueBy :: "int \<Rightarrow> int option \<Rightarrow> bool" where
  "dueBy d horizon = (case horizon of None \<Rightarrow> True | Some t \<Rightarrow> d \<le> t)"

definition pendingWork :: "service \<Rightarrow> nat" where
  "pendingWork s =
     2 * length (requestQueue s)
       + (case awaiting s of Nothing \<Rightarrow> 0 | Response e t res \<Rightarrow> 2 | Timer t \<Rightarrow> 1)"

function settle :: "server \<Rightarrow> int option \<Rightarrow> service \<Rightarrow> service" where
  "settle srv horizon s =
     (case due s of
        None \<Rightarrow> s
      | Some d \<Rightarrow> if dueBy d horizon then settle srv horizon (fire srv s) else s)"
  by pat_completeness auto
termination
  by (relation "measure (\<lambda>(srv, horizon, s). pendingWork s)")
    (auto simp: due_def fire_def pendingWork_def afterResponse_def loopHead_def Let_def
      split: awaiting.splits list.splits prod.splits sum.splits)

declare settle.simps [simp del]

definition fresh :: service where
  "fresh = \<lparr> cache = (\<lambda>k. None), requestQueue = [], isProcessingQueue = False, awaiting = Nothing,
             promises = 0, outbound = [], settlements = [] \<rparr>"

definition call :: "server \<Rightarrow> int \<times> string \<times> params \<Rightarrow> service \<Rightarrow> service" where
  "call srv c s = (case c of (t, ep, ps) \<Rightarrow> snd (makeRequest srv t ep ps (settle srv (Some t) s)))"

definition run :: "server \<Rightarrow> (int \<times> string \<times> params) list \<Rightarrow> service \<Rightarrow> service" where
  "run srv calls s = settle srv None (fold (call srv) calls s)"

section \<open>Example values\<close>

text \<open>
  A remote source that lists and serves the movie 550 (rating 7.5, popularity 150), a
  remote source whose keyword request for movie 2 fails, an empty store and an idle syncer.
\<close>

definition fightClub :: tmdb_movie where
  "fightClub = \<lparr> m_id = 550, m_title = ''Fight Club'', m_overview = ''An insomniac office worker.'',
     m_popularity = 150, m_vote_average = 75 / 10, m_vote_count = 1000,
     m_status = ''Released'', m_rest = [] \<rparr>"

definition item550 :: summary where
  "item550 = \<lparr> s_tmdbId = 550, s_type = Movie, s_average = 75 / 10 \<rparr>"

definition remote550 :: remote where
  "remote550 =
     \<lparr> listing = (\<lambda>q. if q = PopularMovies 1 then Inr [item550] else Inr []),
       movie_core = (\<lambda>i. if i = 550 then Inr fightClub else Inl RequestFailed),
       movie_sub = (\<lambda>e i. Inr []),
       tv_core = (\<lambda>i. Inl RequestFailed),
       tv_sub = (\<lambda>e i. Inr []) \<rparr>"

definition emptyStore :: store where
  "emptyStore = \<lparr> docs = [], next_oid = 0, key_index = True, slug_lib = (\<lambda>t. t) \<rparr>"

definition idle :: syncer where
  "idle = \<lparr> isRunning = False, moviesAdded = 0, seriesAdded = 0, animesAdded = 0, updated = 0, errors = 0 \<rparr>"

definition movieNamed :: "int \<Rightarrow> string \<Rightarrow> rat \<Rightarrow> tmdb_movie" where
  "movieNamed i t v =
     \<lparr> m_id = i, m_title = t, m_overview = ''Overview.'', m_popularity = 10,
       m_vote_average = v, m_vote_count = 100, m_status = ''Released'', m_rest = [] \<rparr>"

definition movieItem :: "int \<Rightarrow> rat \<Rightarrow> summary" where
  "movieItem i v = \<lparr> s_tmdbId = i, s_type = Movie, s_average = v \<rparr>"

definition remoteABC :: remote where
  "remoteABC =
     \<lparr> listing = (\<lambda>q. Inr []),
       movie_core = (\<lambda>i. if i = 1 then Inr (movieNamed 1 ''Alpha'' 7)
                          else if i = 2 then Inr (movieNamed 2 ''Beta'' 7)
                          else if i = 3 then Inr (movieNamed 3 ''Gamma'' 7)
                          else Inl RequestFailed),
       movie_sub = (\<lambda>e i. if i = 2 \<and> e = Keywords then Inl RequestFailed else Inr []),
       tv_core = (\<lambda>i. Inl RequestFailed),
       tv_sub = (\<lambda>e i. Inr []) \<rparr>"


text \<open>An inactive document for movie 550 under an older title, with and without the key index.\<close>

definition inactive550 :: media where
  "inactive550 =
     \<lparr> tmdbId = 550, title = ''Fight Club 1999'', type = Movie, description = ''Old entry.'',
       rating = \<lparr> ageRating = ''L'', tmdb = \<lparr> average = 4, count = 10 \<rparr>,
                  internal = \<lparr> average = 42 / 10, count = 10 \<rparr> \<rparr>,
       popularity = 10, slug = ''fight-club-1999'', status = ''Released'', subtitles = Some [],
       rest = [],
       isActive = False, featured = False, trending = False,
       createdAt = 0, updatedAt = 0, lastSyncAt = 0,
       oid = 0, analytics = \<lparr> views = 2, histories = [] \<rparr> \<rparr>"

definition storeInactive :: "bool \<Rightarrow> store" where
  "storeInactive k = \<lparr> docs = [inactive550], next_oid = 1, key_index = k, slug_lib = (\<lambda>t. t) \<rparr>"

text \<open>
  A movie created 400 days before the instant \<open>days 400\<close>, with two views and a given
  remote rating, and a store holding given documents.
\<close>

definition days :: "int \<Rightarrow> int" where "days n = n * 24 * 60 * 60 * 1000"

definition neglected :: "nat \<Rightarrow> string \<Rightarrow> rat \<Rightarrow> media" where
  "neglected i sl v =
     \<lparr> tmdbId = 700 + int i, title = ''Neglected'', type = Movie, description = ''Nobody watches it.'',
       rating = \<lparr> ageRating = ''L'', tmdb = \<lparr> average = v, count = 10 \<rparr>,
                  internal = \<lparr> average = 0, count = 0 \<rparr> \<rparr>,
       popularity = 1, slug = sl, status = ''Released'', subtitles = Some [],
       rest = [],
       isActive = True, featured = False, trending = False,
       createdAt = 0, updatedAt = 0, lastSyncAt = 0,
       oid = i, analytics = \<lparr> views = 2, histories = [] \<rparr> \<rparr>"

definition storeOf :: "media list \<Rightarrow> store" where
  "storeOf ds = \<lparr> docs = ds, next_oid = length ds, key_index = True, slug_lib = (\<lambda>t. t) \<rparr>"

section \<open>Relations used in the statements\<close>


text \<open>
  A store is well formed when its documents have distinct \<^verbatim>\<open>_id\<close>s below the next fresh
  one; its keys are unique when no two documents share the pair (tmdbId, type).
\<close>

definition wf_store :: "store \<Rightarrow> bool" where
  "wf_store s = (distinct (map oid (docs s)) \<and> (\<forall>i \<in> set (map oid (docs s)). i < next_oid s))"

definition key :: "media \<Rightarrow> int \<times> media_type" where
  "key m = (tmdbId m, type m)"

definition unique_keys :: "store \<Rightarrow> bool" where
  "unique_keys s = distinct (map key (docs s))"

text \<open>
  The slug a document is stored with; a store that extends another by appended documents;
  an item that a pass over a store cannot add: it is found, or its fetch fails, or the save
  of its converted details is rejected.
\<close>

definition finalSlug :: "store \<Rightarrow> mediaData \<Rightarrow> string" where
  "finalSlug s d = (if slug d = [] \<and> trim (title d) \<noteq> [] then slug_lib s (trim (title d)) else slug d)"

definition grows :: "store \<Rightarrow> store \<Rightarrow> bool" where
  "grows s s' = ((\<exists>ms. docs s' = docs s @ ms) \<and> key_index s' = key_index s \<and> slug_lib s' = slug_lib s)"

definition settled :: "remote \<Rightarrow> media_type \<Rightarrow> store \<Rightarrow> summary \<Rightarrow> bool" where
  "settled r ty s item =
     (findByTmdbId s (s_tmdbId item) ty \<noteq> None
      \<or> (case fetchDetails r ty (s_tmdbId item) of
            Inl e \<Rightarrow> True
          | Inr d \<Rightarrow> \<forall>now. isl (save s now (convertTMDBToMediaFormat now d))))"

text \<open>
  A stale document whose slug is the one a listed movie converts to, and a remote source
  that has since renamed the document's own movie.
\<close>

definition sharedTitle :: media where
  "sharedTitle =
     \<lparr> tmdbId = 1, title = ''Shared Title'', type = Movie, description = ''First of the name.'',
       rating = \<lparr> ageRating = ''L'', tmdb = \<lparr> average = 7, count = 100 \<rparr>,
                  internal = \<lparr> average = 0, count = 0 \<rparr> \<rparr>,
       popularity = 10, slug = ''shared-title'', status = ''Released'', subtitles = Some [],
       rest = [],
       isActive = True, featured = False, trending = False,
       createdAt = 0, updatedAt = 0, lastSyncAt = 0,
       oid = 0, analytics = \<lparr> views = 0, histories = [] \<rparr> \<rparr>"

definition remoteRenamed :: remote where
  "remoteRenamed =
     \<lparr> listing = (\<lambda>q. if q = PopularMovies 1 then Inr [movieItem 2 7] else Inr []),
       movie_core = (\<lambda>i. if i = 1 then Inr (movieNamed 1 ''Renamed'' 7)
                          else if i = 2 then Inr (movieNamed 2 ''Shared Title'' 7)
                          else Inl RequestFailed),
       movie_sub = (\<lambda>e i. Inr []),
       tv_core = (\<lambda>i. Inl RequestFailed),
       tv_sub = (\<lambda>e i. Inr []) \<rparr>"

text \<open>
  The key of a listed item; the two bulk writes of \<^verbatim>\<open>syncTrendingContent\<close>; and the
  invariant of its loop for the keys \<open>K\<close> of the listing: the store is well formed, no
  flag is set, and every collected \<^verbatim>\<open>_id\<close> is that of an active document with a key of \<open>K\<close>.
\<close>

definition itemKey :: "summary \<Rightarrow> int \<times> media_type" where
  "itemKey item = (s_tmdbId item, s_type item)"

definition resetTrending :: "store \<Rightarrow> store" where
  "resetTrending s = updateMany (\<lambda>m. True) (\<lambda>m. m\<lparr> trending := False \<rparr>) s"

definition markTrending :: "int \<Rightarrow> nat list \<Rightarrow> store \<Rightarrow> store" where
  "markTrending now ids s =
     updateMany (\<lambda>m. oid m \<in> set ids) (\<lambda>m. m\<lparr> trending := True, updatedAt := now \<rparr>) s"

definition collecting :: "(int \<times> media_type) set \<Rightarrow> (store \<times> syncer) \<times> nat list \<Rightarrow> bool" where
  "collecting K acc =
     (wf_store (fst (fst acc))
      \<and> (\<forall>m \<in> set (docs (fst (fst acc))). \<not> trending m)
      \<and> (\<forall>i \<in> set (snd acc). \<exists>m \<in> set (docs (fst (fst acc))). oid m = i \<and> isActive m \<and> key m \<in> K))"

text \<open>
  A store with movie 1 and a formerly trending movie 701, and a remote source whose trending
  listing names the movies 1, 2 and 3; its keyword request for movie 2 fails.
\<close>

definition movieDoc :: "nat \<Rightarrow> int \<Rightarrow> string \<Rightarrow> bool \<Rightarrow> media" where
  "movieDoc i n sl t =
     \<lparr> tmdbId = n, title = ''Stored'', type = Movie, description = ''Stored earlier.'',
       rating = \<lparr> ageRating = ''L'', tmdb = \<lparr> average = 7, count = 10 \<rparr>,
                  internal = \<lparr> average = 0, count = 0 \<rparr> \<rparr>,
       popularity = 1, slug = sl, status = ''Released'', subtitles = Some [],
       rest = [],
       isActive = True, featured = False, trending = t,
       createdAt = 0, updatedAt = 0, lastSyncAt = 0,
       oid = i, analytics = \<lparr> views = 0, histories = [] \<rparr> \<rparr>"

definition trendingStore :: store where
  "trendingStore = storeOf [movieDoc 0 1 ''stored-alpha'' False, movieDoc 1 701 ''old-hit'' True]"

definition remoteTrending :: remote where
  "remoteTrending =
     remoteABC\<lparr> listing := (\<lambda>q. if q = Trending ''all'' ''week''
                                  then Inr [movieItem 1 7, movieItem 2 7, movieItem 3 7]
                                else if q = PopularMovies 1 then Inr [movieItem 1 7, movieItem 3 7]
                                else Inr []) \<rparr>"

text \<open>
  A remote service that answers every request after 50 ms, one that rejects what is
  requested before the instant 1000, and a request for a page of popular movies made at
  an instant.
\<close>

definition quick :: server where
  "quick ep ps now = (50, Inr (Object [(''endpoint'', ep)]))"



text \<open>
  The latest successful response for a cache key in the log of settlements, with the
  instant at which it arrived. A settlement answers an outbound request when it is for the
  same queue element, whose cache key is that of its endpoint and parameters, and carries
  what \<^verbatim>\<open>axios.get\<close> gives for it: the instant at which it settles and its outcome.
\<close>

fun lastSuccess :: "string \<Rightarrow> (int \<times> entry \<times> (error + body)) list \<Rightarrow> (int \<times> body) option" where
  "lastSuccess k [] = None"
| "lastSuccess k ((t, e, res) # later) =
     (case lastSuccess k later of
        Some found \<Rightarrow> Some found
      | None \<Rightarrow> (case res of
                   Inr data \<Rightarrow> if cacheKey e = k then Some (t, data) else None
                 | Inl err \<Rightarrow> None))"

definition answered :: "server \<Rightarrow> int \<times> entry \<times> (error + body) \<Rightarrow> int \<times> entry \<Rightarrow> bool" where
  "answered srv x y =
     (case x of (t, e, res) \<Rightarrow>
        case y of (t0, e0) \<Rightarrow>
          e = e0 \<and> axios_get srv e t0 = (t, res)
          \<and> cacheKey e = endpoint e @ ''_'' @ JSON_stringify (params e))"

text \<open>
  The invariants of the service. The tickets of the requests issued and queued count up
  from 0, and each has the cache key of its endpoint and parameters. The suspension agrees with \<^verbatim>\<open>isProcessingQueue\<close> and an idle service has an
  empty queue. The settlements answer the outbound requests, in order, but for the one in
  flight. The cache holds, for every key, the latest successful response for it, with the
  expiry instant that \<^verbatim>\<open>set\<close> gave it.
\<close>

definition requests :: "service \<Rightarrow> entry list" where
  "requests s = map snd (outbound s) @ requestQueue s"

definition fifo :: "service \<Rightarrow> bool" where
  "fifo s = (map ticket (requests s) = [0..<promises s])"

definition keyed :: "service \<Rightarrow> bool" where
  "keyed s = list_all (\<lambda>e. cacheKey e = endpoint e @ ''_'' @ JSON_stringify (params e)) (requests s)"

definition suspended :: "service \<Rightarrow> bool" where
  "suspended s = ((awaiting s = Nothing) = (\<not> isProcessingQueue s)
                  \<and> (\<not> isProcessingQueue s \<longrightarrow> requestQueue s = []))"

definition logged :: "server \<Rightarrow> service \<Rightarrow> bool" where
  "logged srv s =
     (case awaiting s of
        Response e d res \<Rightarrow>
          outbound s \<noteq> [] \<and> snd (last (outbound s)) = e
          \<and> axios_get srv e (fst (last (outbound s))) = (d, res)
          \<and> list_all2 (answered srv) (settlements s) (butlast (outbound s))
      | _ \<Rightarrow> list_all2 (answered srv) (settlements s) (outbound s))"

definition cacheAgrees :: "service \<Rightarrow> bool" where
  "cacheAgrees s = (\<forall>k. cache s k = map_option (\<lambda>(t, data). (data, t + stdTTL * 1000)) (lastSuccess k (settlements s)))"

definition sound :: "server \<Rightarrow> service \<Rightarrow> bool" where
  "sound srv s = (fifo s \<and> keyed s \<and> suspended s \<and> logged srv s \<and> cacheAgrees s)"
section \<open>Basic facts about the Media model and processBatch\<close>

lemma processItem_counter:
  "processItem r now ty x (s, st, n) =
     (case processItem r now ty x (s, st, 0) of (s', st', k) \<Rightarrow> (s', st', n + k))"
  by (simp add: processItem_def split: option.split sum.split)

lemma fold_processItem_counter:
  "fold (processItem r now ty) items (s, st, n) =
     (case fold (processItem r now ty) items (s, st, 0) of (s', st', k) \<Rightarrow> (s', st', n + k))"
proof (induction items arbitrary: s st n)
  case Nil
  show ?case by simp
next
  case (Cons x xs)
  obtain s1 st1 k1 where one: "processItem r now ty x (s, st, 0) = (s1, st1, k1)"
    by (cases "processItem r now ty x (s, st, 0)") auto
  have "processItem r now ty x (s, st, n) = (s1, st1, n + k1)"
    using processItem_counter [of r now ty x s st n] one by simp
  then show ?case
    using one Cons.IH [of s1 st1 "n + k1"] Cons.IH [of s1 st1 k1]
    by (simp split: prod.splits)
qed

lemma processBatch_append:
  "processBatch r now (xs @ ys) ty ss =
     (case processBatch r now xs ty ss of
        (ss1, n1) \<Rightarrow> (case processBatch r now ys ty ss1 of (ss2, n2) \<Rightarrow> (ss2, n1 + n2)))"
proof -
  obtain s1 st1 n1 where one: "fold (processItem r now ty) xs (fst ss, snd ss, 0) = (s1, st1, n1)"
    by (cases "fold (processItem r now ty) xs (fst ss, snd ss, 0)") auto
  show ?thesis
    using one fold_processItem_counter [of r now ty ys s1 st1 n1]
    by (simp add: processBatch_def split: prod.splits)
qed

lemma slug_fightClub: "generateSlug ''Fight Club'' = ''fight-club''" by code_simp
lemma trim_fightClub: "trim ''Fight Club'' = ''Fight Club''" by code_simp


lemma save_docs:
  "save s now d = Inr s' \<Longrightarrow>
     docs s' = docs s @ [preSave s now (new_Media (next_oid s) d)] \<and> next_oid s' = Suc (next_oid s)
     \<and> key_index s' = key_index s \<and> slug_lib s' = slug_lib s"
  by (auto simp: save_def Let_def split: if_splits)

lemma new_Media_sel:
  "oid (new_Media i d) = i" "tmdbId (new_Media i d) = tmdbId d" "type (new_Media i d) = type d"
  "slug (new_Media i d) = slug d" "isActive (new_Media i d) = isActive d"
  "trending (new_Media i d) = trending d" "title (new_Media i d) = trim (title d)"
  "createdAt (new_Media i d) = createdAt d" "lastSyncAt (new_Media i d) = lastSyncAt d"
  by (simp_all add: new_Media_def)

lemma preSave_sel:
  "oid (preSave s now m) = oid m" "tmdbId (preSave s now m) = tmdbId m" "type (preSave s now m) = type m"
  "isActive (preSave s now m) = isActive m" "trending (preSave s now m) = trending m"
  "createdAt (preSave s now m) = createdAt m" "lastSyncAt (preSave s now m) = lastSyncAt m"
  by (simp_all add: preSave_def)

lemma convert_flags:
  "isActive (convertTMDBToMediaFormat now d)" "\<not> trending (convertTMDBToMediaFormat now d)"
  "createdAt (convertTMDBToMediaFormat now d) = now" "lastSyncAt (convertTMDBToMediaFormat now d) = now"
  by (simp_all add: convertTMDBToMediaFormat_def)

lemma save_new:
  assumes "save s now d = Inr s'"
  shows "\<exists>m. docs s' = docs s @ [m] \<and> oid m = next_oid s \<and> next_oid s' = Suc (next_oid s)
           \<and> isActive m = isActive d \<and> trending m = trending d
           \<and> key m = (tmdbId d, type d) \<and> slug m = finalSlug s d"
  using save_docs [OF assms]
  by (simp add: key_def preSave_sel new_Media_sel finalSlug_def preSave_def)

lemma save_new_instants:
  assumes "save s now d = Inr s'"
  shows "\<exists>m. docs s' = docs s @ [m] \<and> isActive m = isActive d \<and> trending m = trending d
           \<and> createdAt m = createdAt d \<and> lastSyncAt m = lastSyncAt d"
  using save_docs [OF assms] by (simp add: preSave_sel new_Media_sel)

lemma processItem_cases:
  assumes "processItem r now ty item (s, st, n) = (s', st', n')"
  shows "(s' = s \<and> n' = n)
      \<or> (\<exists>d. findByTmdbId s (s_tmdbId item) ty = None \<and> fetchDetails r ty (s_tmdbId item) = Inr d
              \<and> save s now (convertTMDBToMediaFormat now d) = Inr s' \<and> n' = Suc n \<and> st' = st)"
  using assms by (auto simp: processItem_def await_def split: option.splits sum.splits)

lemma isl_await: "isl (await p k) \<longleftrightarrow> isl p \<or> (\<exists>v. p = Inr v \<and> isl (k v))"
  by (cases p) (auto simp: await_def)




section \<open>A newly created item (claim C9)\<close>

text \<open>
  ContentAggregator gives \<^verbatim>\<open>streamingInfo.subtitles\<close> as strings, which the schema cannot
  cast: its \<^verbatim>\<open>save\<close> and its \<^verbatim>\<open>findByIdAndUpdate\<close> are always rejected, and it writes
  nothing. Items are created by \<^verbatim>\<open>processBatch\<close> of CatalogSyncer.
\<close>

lemma aggregator_not_castable:
  "\<not> castable (convertMovieToMediaFormat now d)" "\<not> castable (convertTVToMediaFormat now d)"
  "\<not> castable ((convertMovieToMediaFormat now d)\<lparr> createdAt := c, rating := rt \<rparr>)"
  "\<not> castable ((convertTVToMediaFormat now d)\<lparr> createdAt := c, rating := rt \<rparr>)"
  by (simp_all add: castable_def convertMovieToMediaFormat_def convertTVToMediaFormat_def)

lemma aggregator_save_rejected:
  "save s now (convertMovieToMediaFormat now d) = Inl ValidationError"
  "save s now (convertTVToMediaFormat now d) = Inl ValidationError"
  by (simp_all add: save_def validates_def aggregator_not_castable)

lemma processAndSave_writes_nothing:
  "fst (processAndSaveMovie r now i s) = s" "fst (processAndSaveTVShow r now i s) = s"
  by (auto simp: processAndSaveMovie_def processAndSaveTVShow_def await_def aggregator_save_rejected
      split: option.splits sum.splits)

text \<open>
  Claim C9. Per-item processing of \<^verbatim>\<open>processBatch\<close> either leaves the documents as they
  are or appends exactly one new document, and that document has \<open>isActive = True\<close>,
  \<open>trending = False\<close> and \<open>lastSyncAt = createdAt = now\<close>, the instant of its creation.
  \<^verbatim>\<open>processAndSaveMovie\<close> of ContentAggregator creates no document.
\<close>

theorem C9_created_item:
  "(docs (fst (processItem r now ty item (s, st, n))) = docs s
    \<or> (\<exists>m. docs (fst (processItem r now ty item (s, st, n))) = docs s @ [m]
           \<and> isActive m \<and> \<not> trending m \<and> lastSyncAt m = now \<and> createdAt m = now))
   \<and> docs (fst (processAndSaveMovie r now i s)) = docs s"
proof -
  obtain s' st' n' where p: "processItem r now ty item (s, st, n) = (s', st', n')"
    by (cases "processItem r now ty item (s, st, n)") auto
  from processItem_cases [OF p]
  have "docs (fst (processItem r now ty item (s, st, n))) = docs s
    \<or> (\<exists>m. docs (fst (processItem r now ty item (s, st, n))) = docs s @ [m]
           \<and> isActive m \<and> \<not> trending m \<and> lastSyncAt m = now \<and> createdAt m = now)"
  proof
    assume "s' = s \<and> n' = n"
    then show ?thesis using p by simp
  next
    assume "\<exists>d. findByTmdbId s (s_tmdbId item) ty = None \<and> fetchDetails r ty (s_tmdbId item) = Inr d
              \<and> save s now (convertTMDBToMediaFormat now d) = Inr s' \<and> n' = Suc n \<and> st' = st"
    then obtain d where "save s now (convertTMDBToMediaFormat now d) = Inr s'" by blast
    from save_new_instants [OF this] show ?thesis using p by (auto simp: convert_flags)
  qed
  then show ?thesis by (simp add: processAndSave_writes_nothing)
qed

text \<open>
  The scenario of the claim: movie 550 is not in the store, its rating 7.5 passes the
  threshold 6.0 of \<^verbatim>\<open>syncPopularMovies\<close>, and the run creates the one document that
  \<^verbatim>\<open>processBatch\<close> creates for it, active, not trending and synchronised at the instant
  of the run. \<^verbatim>\<open>processAndSaveMovie\<close> leaves the store empty.
\<close>

theorem C9_created_item_witness:
  "findByTmdbId emptyStore 550 Movie = None
   \<and> s_average item550 = 75 / 10 \<and> s_average item550 \<ge> minRating
   \<and> docs (fst (syncPopularMovies remote550 1000 (emptyStore, idle)))
       = docs (fst (processItem remote550 1000 Movie item550 (emptyStore, idle, 0)))
   \<and> (\<exists>m. docs (fst (processItem remote550 1000 Movie item550 (emptyStore, idle, 0))) = docs emptyStore @ [m]
          \<and> isActive m \<and> \<not> trending m \<and> lastSyncAt m = 1000 \<and> createdAt m = 1000)
   \<and> docs (fst (processAndSaveMovie remote550 1000 550 emptyStore)) = []"
proof -
  have f: "findByTmdbId emptyStore 550 Movie = None" by code_simp
  have a: "s_average item550 = 75 / 10 \<and> s_average item550 \<ge> minRating"
    by (simp add: item550_def minRating_def)
  have b: "docs (fst (syncPopularMovies remote550 1000 (emptyStore, idle)))
       = docs (fst (processItem remote550 1000 Movie item550 (emptyStore, idle, 0)))"
    by code_simp
  have c: "docs (fst (processItem remote550 1000 Movie item550 (emptyStore, idle, 0))) \<noteq> docs emptyStore"
    by code_simp
  have e: "docs emptyStore = []" by (simp add: emptyStore_def)
  show ?thesis
    using f a b c e C9_created_item [of remote550 1000 Movie item550 emptyStore idle 0 550] by simp
qed


section \<open>Partial failure of a detail fetch (claim C6)\<close>

text \<open>
  Claim C6. A detail fetch fails exactly when its core request or one of its sub-requests
  fails. When the fetch fails for an item \<open>x\<close> in the middle of a batch (an item that is
  not skipped as existing), the batch is the batch of the items before \<open>x\<close>, followed by
  the batch of the items after \<open>x\<close> from the same store with one more error counted:
  nothing is persisted for \<open>x\<close> and every remaining item is processed.
\<close>

theorem C6_partial_failure:
  "(isl (getMovieDetails r i) \<longleftrightarrow>
      isl (movie_core r i)
      \<or> (\<exists>e \<in> set [Credits, Videos, WatchProviders, Keywords, ReleaseDates]. isl (movie_sub r e i)))
   \<and> (isl (getTVDetails r i) \<longleftrightarrow>
      isl (tv_core r i)
      \<or> (\<exists>e \<in> set [Credits, Videos, WatchProviders, Keywords]. isl (tv_sub r e i)))
   \<and> (\<forall>s1 st1 n1.
        processBatch r now before ty ss = ((s1, st1), n1)
        \<and> findByTmdbId s1 (s_tmdbId x) ty = None
        \<and> isl (fetchDetails r ty (s_tmdbId x))
        \<longrightarrow> processBatch r now (before @ x # after) ty ss
            = (case processBatch r now after ty (s1, st1\<lparr> errors := Suc (errors st1) \<rparr>) of
                 (ss2, n2) \<Rightarrow> (ss2, n1 + n2)))"
proof (intro conjI allI impI)
  show "isl (getMovieDetails r i) \<longleftrightarrow>
      isl (movie_core r i)
      \<or> (\<exists>e \<in> set [Credits, Videos, WatchProviders, Keywords, ReleaseDates]. isl (movie_sub r e i))"
    by (auto simp: getMovieDetails_def await_def split: sum.splits)
  show "isl (getTVDetails r i) \<longleftrightarrow>
      isl (tv_core r i)
      \<or> (\<exists>e \<in> set [Credits, Videos, WatchProviders, Keywords]. isl (tv_sub r e i))"
    by (auto simp: getTVDetails_def await_def split: sum.splits)
next
  fix s1 st1 n1
  assume h: "processBatch r now before ty ss = ((s1, st1), n1)
        \<and> findByTmdbId s1 (s_tmdbId x) ty = None
        \<and> isl (fetchDetails r ty (s_tmdbId x))"
  then obtain e where e: "fetchDetails r ty (s_tmdbId x) = Inl e"
    by (cases "fetchDetails r ty (s_tmdbId x)") auto
  have one: "processBatch r now [x] ty (s1, st1) = ((s1, st1\<lparr> errors := Suc (errors st1) \<rparr>), 0)"
    using h e by (simp add: processBatch_def processItem_def await_def)
  have "processBatch r now (before @ ([x] @ after)) ty ss
      = (case processBatch r now after ty (s1, st1\<lparr> errors := Suc (errors st1) \<rparr>) of
                 (ss2, n2) \<Rightarrow> (ss2, n1 + n2))"
    using h one
    by (simp only: processBatch_append [of r now before] processBatch_append [of r now "[x]"])
       (simp split: prod.splits)
  then show "processBatch r now (before @ x # after) ty ss
            = (case processBatch r now after ty (s1, st1\<lparr> errors := Suc (errors st1) \<rparr>) of
                 (ss2, n2) \<Rightarrow> (ss2, n1 + n2))"
    by simp
qed


theorem C6_partial_failure_witness:
  "isl (movie_sub remoteABC Keywords 2) \<and> isl (getMovieDetails remoteABC 2)
   \<and> processBatch remoteABC 1000 ([movieItem 1 7] @ movieItem 2 7 # [movieItem 3 7]) Movie (emptyStore, idle)
       = (case processBatch remoteABC 1000 [movieItem 3 7] Movie
                 (fst (fst (processBatch remoteABC 1000 [movieItem 1 7] Movie (emptyStore, idle))),
                  (snd (fst (processBatch remoteABC 1000 [movieItem 1 7] Movie (emptyStore, idle))))
                    \<lparr> errors := Suc (errors (snd (fst (processBatch remoteABC 1000 [movieItem 1 7] Movie (emptyStore, idle))))) \<rparr>) of
            (ss2, n2) \<Rightarrow> (ss2, snd (processBatch remoteABC 1000 [movieItem 1 7] Movie (emptyStore, idle)) + n2))
   \<and> map tmdbId (docs (fst (fst (processBatch remoteABC 1000 [movieItem 1 7, movieItem 2 7, movieItem 3 7] Movie (emptyStore, idle))))) = [1, 3]
   \<and> errors (snd (fst (processBatch remoteABC 1000 [movieItem 1 7, movieItem 2 7, movieItem 3 7] Movie (emptyStore, idle)))) = 1
   \<and> snd (processBatch remoteABC 1000 [movieItem 1 7, movieItem 2 7, movieItem 3 7] Movie (emptyStore, idle)) = 2"
proof -
  define b where "b = processBatch remoteABC 1000 [movieItem 1 7] Movie (emptyStore, idle)"
  have p0: "isl (movie_sub remoteABC Keywords 2)" by code_simp
  have p1: "processBatch remoteABC 1000 [movieItem 1 7] Movie (emptyStore, idle)
              = ((fst (fst b), snd (fst b)), snd b)"
    by (simp add: b_def)
  have p2: "findByTmdbId (fst (fst b)) (s_tmdbId (movieItem 2 7)) Movie = None"
    unfolding b_def by code_simp
  have p3: "isl (fetchDetails remoteABC Movie (s_tmdbId (movieItem 2 7)))" by code_simp
  have p4: "isl (getMovieDetails remoteABC 2)"
    using p0 C6_partial_failure [of remoteABC 2] by simp
  have eq: "processBatch remoteABC 1000 ([movieItem 1 7] @ movieItem 2 7 # [movieItem 3 7]) Movie (emptyStore, idle)
       = (case processBatch remoteABC 1000 [movieItem 3 7] Movie
                 (fst (fst b), (snd (fst b))\<lparr> errors := Suc (errors (snd (fst b))) \<rparr>) of
            (ss2, n2) \<Rightarrow> (ss2, snd b + n2))"
    using C6_partial_failure [of remoteABC 2 1000 "[movieItem 1 7]" Movie "(emptyStore, idle)"
        "movieItem 2 7" "[movieItem 3 7]"] p1 p2 p3 by blast
  have e1: "map tmdbId (docs (fst (fst (processBatch remoteABC 1000 [movieItem 1 7, movieItem 2 7, movieItem 3 7] Movie (emptyStore, idle))))) = [1, 3]"
    by code_simp
  have e2: "errors (snd (fst (processBatch remoteABC 1000 [movieItem 1 7, movieItem 2 7, movieItem 3 7] Movie (emptyStore, idle)))) = 1"
    by code_simp
  have e3: "snd (processBatch remoteABC 1000 [movieItem 1 7, movieItem 2 7, movieItem 3 7] Movie (emptyStore, idle)) = 2"
    by code_simp
  show ?thesis
    using p0 p4 eq e1 e2 e3 unfolding b_def by blast
qed


section \<open>Soft-deactivated items and the existence check (claim C10)\<close>




section \<open>Cleanup of obsolete content (claim C4)\<close>

text \<open>
  \<^verbatim>\<open>cleanupObsoleteContent\<close> of CatalogSyncer rewrites exactly the active documents with
  fewer than 5 views, created more than 365 days ago and rated below 5.0 by the remote
  source, setting \<open>isActive = False\<close>; every other document stays as it is.
\<close>

lemma cleanupObsoleteContent_exact:
  "length (docs (fst (cleanupObsoleteContent now ss))) = length (docs (fst ss))
   \<and> (\<forall>k < length (docs (fst ss)).
        (let m = docs (fst ss) ! k; m' = docs (fst (cleanupObsoleteContent now ss)) ! k in
         if isActive m \<and> views (analytics m) < 5 \<and> createdAt m < now - oneYear
            \<and> average (tmdb (rating m)) < 5
         then m' = m\<lparr> isActive := False, updatedAt := now \<rparr>
         else m' = m))"
  by (simp add: cleanupObsoleteContent_def updateMany_def obsolete_def Let_def)

text \<open>
  The filter of the script never holds: the stored rating sub-document has three fields and
  the literal document of the query has one.
\<close>

lemma script_obsolete_never: "\<not> script_obsolete now m"
  by (simp add: script_obsolete_def rating_bson_def)

lemma script_cleanup_noop: "script_cleanupObsoleteContent now ss = ss"
  by (cases ss) (simp add: script_cleanupObsoleteContent_def updateMany_def script_obsolete_never)

text \<open>
  Claim C4 at the items of the specification's example (2 views, 400 days old, remote
  rating 4.0 and 7.0): the cleanup of CatalogSyncer deactivates the first and keeps the
  second, as the claim says; the cleanup of the script leaves both active.
\<close>

theorem C4_script_cleanup_keeps_obsolete_item:
  "isActive (neglected 0 ''a'' 4) \<and> views (analytics (neglected 0 ''a'' 4)) = 2
   \<and> createdAt (neglected 0 ''a'' 4) = days 400 - days 400
   \<and> average (tmdb (rating (neglected 0 ''a'' 4))) = 4
   \<and> average (tmdb (rating (neglected 1 ''b'' 7))) = 7
   \<and> map isActive (docs (fst (cleanupObsoleteContent (days 400)
          (storeOf [neglected 0 ''a'' 4, neglected 1 ''b'' 7], idle)))) = [False, True]
   \<and> map isActive (docs (fst (script_cleanupObsoleteContent (days 400)
          (storeOf [neglected 0 ''a'' 4, neglected 1 ''b'' 7], idle)))) = [True, True]"
  by code_simp

section \<open>What a refresh carries forward (claim C1)\<close>



lemma same_oid_same_doc:
  "distinct (map oid xs) \<Longrightarrow> a \<in> set xs \<Longrightarrow> b \<in> set xs \<Longrightarrow> oid a = oid b \<Longrightarrow> a = b"
  by (metis distinct_map inj_onD)










lemma agg_updateMedia_writes_nothing:
  "fst (agg_updateMedia r now m acc) = fst acc"
  by (cases acc)
    (auto simp: agg_updateMedia_def await_def Let_def findByIdAndUpdate_def aggregator_not_castable
      split: sum.splits)

lemma agg_updateExistingContent_writes_nothing:
  "fst (agg_updateExistingContent r now s) = s"
proof -
  have "fst (fold (agg_updateMedia r now) ms acc) = fst acc" for ms acc
    by (induction ms arbitrary: acc) (simp_all add: agg_updateMedia_writes_nothing)
  then show ?thesis by (simp add: agg_updateExistingContent_def)
qed






section \<open>Uniqueness of (tmdbId, type) (claim C2)\<close>

lemma find_oid: "find (\<lambda>m. oid m = i) xs = Some x \<Longrightarrow> oid x = i \<and> x \<in> set xs"
  by (auto simp: find_Some_iff)

text \<open>
  Claim C2 against the code. The collection has the unique index on \<^verbatim>\<open>{ tmdbId, type }\<close>
  only after \<^verbatim>\<open>createIndexes\<close> has run, and nothing calls it; the schema declares no such
  index. The store holds one document, the soft-deactivated movie 550 under its former
  title, so its keys are unique. \<^verbatim>\<open>fullSync\<close> finds movie 550 among the popular movies;
  the existence check \<^verbatim>\<open>findByTmdbId\<close> skips the inactive document, the new slug is free,
  and a second document with the key (550, movie) is inserted.
\<close>

theorem C2_duplicate_key_without_index:
  "\<not> key_index (storeInactive False)
   \<and> unique_keys (storeInactive False)
   \<and> map (\<lambda>m. (key m, isActive m, slug m)) (docs (storeInactive False))
       = [((550, Movie), False, ''fight-club-1999'')]
   \<and> map (\<lambda>m. (key m, isActive m, slug m))
         (docs (fst (fullSync remote550 (days 400) (storeInactive False, idle))))
       = [((550, Movie), False, ''fight-club-1999''), ((550, Movie), True, ''fight-club'')]
   \<and> \<not> unique_keys (fst (fullSync remote550 (days 400) (storeInactive False, idle)))"
  by code_simp

section \<open>Running a pass twice (claim C3)\<close>

lemma save_fails_iff:
  "isl (save s now d) \<longleftrightarrow>
     \<not> validates d \<or> slugTaken (docs s) (finalSlug s d)
     \<or> (key_index s \<and> keyTaken (docs s) (tmdbId d) (type d))"
  by (simp add: save_def Let_def finalSlug_def preSave_def new_Media_def)

lemma save_slug:
  "save s now d = Inr s' \<Longrightarrow> slugTaken (docs s') (finalSlug s d)"
  by (auto simp: save_def Let_def finalSlug_def preSave_def new_Media_def slugTaken_def split: if_splits)

lemma convert_fields:
  "title (convertTMDBToMediaFormat now d) = d_title d"
  "description (convertTMDBToMediaFormat now d) = d_description d"
  "slug (convertTMDBToMediaFormat now d) = generateSlug (d_title d)"
  "tmdbId (convertTMDBToMediaFormat now d) = d_tmdbId d"
  "type (convertTMDBToMediaFormat now d) = d_type d"
  "status (convertTMDBToMediaFormat now d) = d_status d"
  "subtitles (convertTMDBToMediaFormat now d) = None"
  by (simp_all add: convertTMDBToMediaFormat_def)

lemma validates_convert:
  "validates (convertTMDBToMediaFormat now d) \<longleftrightarrow>
     trim (d_title d) \<noteq> [] \<and> d_description d \<noteq> [] \<and> d_status d \<in> set statusEnum"
  by (simp add: validates_def castable_def convert_fields)

lemma finalSlug_convert:
  "finalSlug s (convertTMDBToMediaFormat now d) = finalSlug s (convertTMDBToMediaFormat now' d)"
  by (simp add: finalSlug_def convert_fields)

lemma save_convert_indep:
  "isl (save s now (convertTMDBToMediaFormat now d)) \<longleftrightarrow> isl (save s now' (convertTMDBToMediaFormat now' d))"
  using finalSlug_convert [of s now d now']
  by (simp add: save_fails_iff convert_fields validates_convert)

lemma grows_refl: "grows s s" by (simp add: grows_def)

lemma grows_trans: "grows a b \<Longrightarrow> grows b c \<Longrightarrow> grows a c"
  by (auto simp: grows_def)

lemma save_grows: "save s now d = Inr s' \<Longrightarrow> grows s s'"
  using save_docs [of s now d s'] by (simp add: grows_def)

lemma find_append_Some: "find p xs = Some x \<Longrightarrow> find p (xs @ ys) = Some x"
  by (induction xs) (auto split: if_splits)

lemma grows_find:
  "grows s s' \<Longrightarrow> findByTmdbId s i ty = Some m \<Longrightarrow> findByTmdbId s' i ty = Some m"
  by (auto simp: grows_def findByTmdbId_def find_append_Some)

lemma grows_save_fails:
  assumes "grows s s'" and "isl (save s now d)"
  shows "isl (save s' now d)"
proof -
  have "finalSlug s' d = finalSlug s d" using assms(1) by (simp add: finalSlug_def grows_def)
  moreover have "slugTaken (docs s) sl \<Longrightarrow> slugTaken (docs s') sl" for sl
    using assms(1) by (auto simp: grows_def slugTaken_def)
  moreover have "keyTaken (docs s) i ty \<Longrightarrow> keyTaken (docs s') i ty" for i ty
    using assms(1) by (auto simp: grows_def keyTaken_def)
  moreover have "key_index s' = key_index s" using assms(1) by (simp add: grows_def)
  ultimately show ?thesis using assms(2) unfolding save_fails_iff by metis
qed

lemma settled_grows:
  assumes "settled r ty s item" and "grows s s'"
  shows "settled r ty s' item"
proof (cases "findByTmdbId s (s_tmdbId item) ty")
  case (Some m)
  then show ?thesis using grows_find [OF assms(2) Some] by (simp add: settled_def)
next
  case None
  then show ?thesis
    using assms grows_save_fails [OF assms(2)]
    by (auto simp: settled_def split: sum.splits)
qed

lemma processItem_grows: "grows (fst acc) (fst (processItem r now ty item acc))"
proof -
  obtain s st n where acc: "acc = (s, st, n)" by (cases acc)
  show ?thesis
    unfolding acc
    by (auto simp: processItem_def await_def grows_refl save_grows split: option.splits sum.splits)
qed

lemma processItem_settles: "settled r ty (fst (processItem r now ty item acc)) item"
proof -
  obtain s st n where acc: "acc = (s, st, n)" by (cases acc)
  show ?thesis
  proof (cases "findByTmdbId s (s_tmdbId item) ty")
    case (Some m)
    then show ?thesis by (simp add: acc processItem_def settled_def)
  next
    case None
    show ?thesis
    proof (cases "fetchDetails r ty (s_tmdbId item)")
      case (Inl e)
      then show ?thesis using None by (simp add: acc processItem_def settled_def await_def)
    next
      case (Inr d)
      show ?thesis
      proof (cases "save s now (convertTMDBToMediaFormat now d)")
        case (Inl e)
        then have "\<forall>now'. isl (save s now' (convertTMDBToMediaFormat now' d))"
          using save_convert_indep [of s now d] by simp
        then show ?thesis using None Inr Inl by (simp add: acc processItem_def settled_def await_def)
      next
        case w: (Inr s')
        have g: "grows s s'" using w by (rule save_grows)
        have taken: "slugTaken (docs s') (finalSlug s (convertTMDBToMediaFormat now d))"
          using w by (rule save_slug)
        have fs: "finalSlug s' dd = finalSlug s dd" for dd
          using g by (simp add: finalSlug_def grows_def)
        have "finalSlug s' (convertTMDBToMediaFormat now' d) = finalSlug s (convertTMDBToMediaFormat now d)" for now'
          by (simp only: fs finalSlug_convert [of s now' d now])
        then have "\<forall>now'. isl (save s' now' (convertTMDBToMediaFormat now' d))"
          using taken by (simp add: save_fails_iff)
        then show ?thesis using None Inr w by (simp add: acc processItem_def settled_def await_def)
      qed
    qed
  qed
qed

lemma processItem_settled_noop:
  assumes "settled r ty s item"
  shows "fst (processItem r now ty item (s, st, n)) = s \<and> snd (snd (processItem r now ty item (s, st, n))) = n"
proof (cases "findByTmdbId s (s_tmdbId item) ty")
  case (Some m)
  then show ?thesis by (simp add: processItem_def)
next
  case None
  show ?thesis
  proof (cases "fetchDetails r ty (s_tmdbId item)")
    case (Inl e)
    then show ?thesis using None by (simp add: processItem_def await_def)
  next
    case (Inr d)
    then have "isl (save s now (convertTMDBToMediaFormat now d))"
      using assms None by (simp add: settled_def)
    then obtain e where "save s now (convertTMDBToMediaFormat now d) = Inl e"
      by (cases "save s now (convertTMDBToMediaFormat now d)") auto
    then show ?thesis using None Inr by (simp add: processItem_def await_def)
  qed
qed

lemma fold_processItem_grows: "grows (fst acc) (fst (fold (processItem r now ty) items acc))"
proof (induction items arbitrary: acc)
  case Nil
  show ?case by (simp add: grows_refl)
next
  case (Cons x xs)
  show ?case
    using processItem_grows [of acc r now ty x] Cons [of "processItem r now ty x acc"]
    by (auto intro: grows_trans)
qed

lemma fold_processItem_settles:
  "x \<in> set items \<Longrightarrow> settled r ty (fst (fold (processItem r now ty) items acc)) x"
proof (induction items arbitrary: acc)
  case Nil
  then show ?case by simp
next
  case (Cons y ys)
  show ?case
  proof (cases "x \<in> set ys")
    case True
    then show ?thesis using Cons.IH [of "processItem r now ty y acc"] by simp
  next
    case False
    then have "x = y" using Cons.prems by simp
    then have "settled r ty (fst (processItem r now ty y acc)) x"
      using processItem_settles [of r ty now y acc] by simp
    then show ?thesis
      using fold_processItem_grows [of "processItem r now ty y acc" r now ty ys]
      by (auto intro: settled_grows)
  qed
qed

lemma fold_processItem_settled_noop:
  "\<forall>x \<in> set items. settled r ty s x \<Longrightarrow>
     fst (fold (processItem r now ty) items (s, st, n)) = s
     \<and> snd (snd (fold (processItem r now ty) items (s, st, n))) = n"
proof (induction items arbitrary: st)
  case Nil
  show ?case by simp
next
  case (Cons y ys)
  obtain st' where one: "processItem r now ty y (s, st, n) = (s, st', n)"
    using processItem_settled_noop [of r ty s y now st n] Cons.prems
    by (cases "processItem r now ty y (s, st, n)") auto
  show ?case using Cons.IH [of st'] Cons.prems one by simp
qed

text \<open>
  Claim C3, as amended. A second \<^verbatim>\<open>processBatch\<close> over the same items against the same
  remote source, at any later instant, leaves the store exactly as the first pass left it
  and adds no item; so does a second \<^verbatim>\<open>processAndSaveMovie\<close> for the same movie. Each item
  is then found, or its fetch fails again, or its insert is rejected again.
\<close>

theorem C3_second_pass_adds_nothing:
  "fst (fst (processBatch r now2 items ty (fst (processBatch r now1 items ty ss))))
     = fst (fst (processBatch r now1 items ty ss))
   \<and> snd (processBatch r now2 items ty (fst (processBatch r now1 items ty ss))) = 0
   \<and> fst (processAndSaveMovie r now2 i (fst (processAndSaveMovie r now1 i s)))
     = fst (processAndSaveMovie r now1 i s)"
proof -
  define acc where "acc = fold (processItem r now1 ty) items (fst ss, snd ss, 0)"
  have first: "fst (processBatch r now1 items ty ss) = (fst acc, fst (snd acc))"
    by (simp add: processBatch_def acc_def case_prod_beta)
  have "\<forall>x \<in> set items. settled r ty (fst acc) x"
    unfolding acc_def by (simp add: fold_processItem_settles)
  then have "fst (fold (processItem r now2 ty) items (fst acc, fst (snd acc), 0)) = fst acc
     \<and> snd (snd (fold (processItem r now2 ty) items (fst acc, fst (snd acc), 0))) = 0"
    by (rule fold_processItem_settled_noop)
  then show ?thesis
    unfolding acc_def by (simp add: processBatch_def case_prod_beta processAndSave_writes_nothing)
qed

theorem C3_second_pass_adds_nothing_witness:
  "length (docs (fst (fst (processBatch remote550 1000 [item550] Movie (emptyStore, idle))))) = 1
   \<and> fst (fst (processBatch remote550 2000 [item550] Movie
                  (fst (processBatch remote550 1000 [item550] Movie (emptyStore, idle)))))
       = fst (fst (processBatch remote550 1000 [item550] Movie (emptyStore, idle)))
   \<and> snd (processBatch remote550 2000 [item550] Movie
              (fst (processBatch remote550 1000 [item550] Movie (emptyStore, idle)))) = 0"
proof -
  have "length (docs (fst (fst (processBatch remote550 1000 [item550] Movie (emptyStore, idle))))) = 1"
    by code_simp
  then show ?thesis
    using C3_second_pass_adds_nothing [of remote550 2000 "[item550]" Movie 1000 "(emptyStore, idle)"]
    by simp
qed

text \<open>
  Claim C3 as stated fails for \<^verbatim>\<open>fullSync\<close>. The store holds movie 1 under the slug
  \<open>shared-title\<close>; the remote source lists movie 2, titled Shared Title, and serves
  movie 1 under a new title. The first run cannot insert movie 2, whose slug is taken, and
  then refreshes movie 1, which frees the slug; the second run against the same remote
  source inserts movie 2. The item count is 1 after the first run and 2 after the second.
\<close>

theorem C3_fullSync_counterexample:
  "map (\<lambda>m. (tmdbId m, slug m)) (docs (storeOf [sharedTitle])) = [(1, ''shared-title'')]
   \<and> map (\<lambda>m. (tmdbId m, slug m)) (docs (fst (fullSync remoteRenamed (days 30) (storeOf [sharedTitle], idle))))
       = [(1, ''renamed'')]
   \<and> map (\<lambda>m. (tmdbId m, slug m))
        (docs (fst (fullSync remoteRenamed (days 31) (fullSync remoteRenamed (days 30) (storeOf [sharedTitle], idle)))))
       = [(1, ''renamed''), (2, ''shared-title'')]"
  by code_simp

section \<open>The trending pass (claim C5)\<close>

lemma processBatch_single:
  "processBatch r now [item] ty ss =
     (case processItem r now ty item (fst ss, snd ss, 0) of (s, st, n) \<Rightarrow> ((s, st), n))"
  by (simp add: processBatch_def)

lemma find_Some_key:
  "findByTmdbId s i ty = Some m \<Longrightarrow> m \<in> set (docs s) \<and> isActive m \<and> key m = (i, ty)"
  by (auto simp: findByTmdbId_def key_def find_Some_iff)

lemma wf_store_append:
  "wf_store s \<Longrightarrow> docs s' = docs s @ [m] \<Longrightarrow> oid m = next_oid s \<Longrightarrow> next_oid s' = Suc (next_oid s)
     \<Longrightarrow> wf_store s'"
  by (auto simp: wf_store_def less_Suc_eq)

lemma trendingItem_cases:
  assumes "trendingItem r now item ((s, st), ids) = ((s', st'), ids')"
  shows "(\<exists>found. findByTmdbId s (s_tmdbId item) (s_type item) = Some found
             \<and> s' = s \<and> ids' = ids @ [oid found])
       \<or> (findByTmdbId s (s_tmdbId item) (s_type item) = None \<and> s' = s \<and> ids' = ids)
       \<or> (\<exists>d. findByTmdbId s (s_tmdbId item) (s_type item) = None
             \<and> fetchDetails r (s_type item) (s_tmdbId item) = Inr d
             \<and> save s now (convertTMDBToMediaFormat now d) = Inr s'
             \<and> (case findByTmdbId s' (s_tmdbId item) (s_type item) of
                   Some newMedia \<Rightarrow> ids' = ids @ [oid newMedia] | None \<Rightarrow> ids' = ids))"
proof (cases "findByTmdbId s (s_tmdbId item) (s_type item)")
  case (Some found)
  then show ?thesis using assms by (simp add: trendingItem_def)
next
  case None
  obtain s1 st1 n1 where p: "processItem r now (s_type item) item (s, st, 0) = (s1, st1, n1)"
    by (cases "processItem r now (s_type item) item (s, st, 0)") auto
  from processItem_cases [OF p] show ?thesis
  proof
    assume "s1 = s \<and> n1 = 0"
    then show ?thesis using assms None p by (simp add: trendingItem_def processBatch_single)
  next
    assume "\<exists>d. findByTmdbId s (s_tmdbId item) (s_type item) = None
        \<and> fetchDetails r (s_type item) (s_tmdbId item) = Inr d
        \<and> save s now (convertTMDBToMediaFormat now d) = Inr s1 \<and> n1 = Suc 0 \<and> st1 = st"
    then show ?thesis
      using assms None p
      by (auto simp: trendingItem_def processBatch_single split: option.splits)
  qed
qed

lemma trendingItem_collecting:
  assumes inv: "collecting K acc" and k: "itemKey item \<in> K"
  shows "collecting K (trendingItem r now item acc)"
proof -
  obtain s st ids where acc: "acc = ((s, st), ids)" by (cases acc) auto
  obtain s' st' ids' where res: "trendingItem r now item ((s, st), ids) = ((s', st'), ids')"
    by (cases "trendingItem r now item ((s, st), ids)") auto
  have wf: "wf_store s" and nt: "\<forall>m \<in> set (docs s). \<not> trending m"
    and ok: "\<forall>i \<in> set ids. \<exists>m \<in> set (docs s). oid m = i \<and> isActive m \<and> key m \<in> K"
    using inv by (simp_all add: collecting_def acc)
  have kk: "(s_tmdbId item, s_type item) \<in> K" using k by (simp add: itemKey_def)
  from trendingItem_cases [OF res] consider
      (found) found where "findByTmdbId s (s_tmdbId item) (s_type item) = Some found" "s' = s"
        "ids' = ids @ [oid found]"
    | (same) "s' = s" "ids' = ids"
    | (added) d where "save s now (convertTMDBToMediaFormat now d) = Inr s'"
        "case findByTmdbId s' (s_tmdbId item) (s_type item) of
           Some newMedia \<Rightarrow> ids' = ids @ [oid newMedia] | None \<Rightarrow> ids' = ids"
    by blast
  then have "collecting K ((s', st'), ids')"
  proof cases
    case found
    then show ?thesis
      using wf nt ok kk find_Some_key [OF found(1)] by (auto simp: collecting_def)
  next
    case same
    then show ?thesis using wf nt ok by (simp add: collecting_def)
  next
    case added
    obtain m where m: "docs s' = docs s @ [m]" "oid m = next_oid s" "next_oid s' = Suc (next_oid s)"
        "isActive m = isActive (convertTMDBToMediaFormat now d)"
        "trending m = trending (convertTMDBToMediaFormat now d)"
      using save_new [OF added(1)] by blast
    have wf': "wf_store s'" using wf m(1,2,3) by (rule wf_store_append)
    have nt': "\<forall>x \<in> set (docs s'). \<not> trending x" using nt m by (simp add: convert_flags)
    have old: "\<forall>i \<in> set ids. \<exists>x \<in> set (docs s'). oid x = i \<and> isActive x \<and> key x \<in> K"
      using ok m(1) by auto
    have new: "\<forall>i \<in> set ids'. \<exists>x \<in> set (docs s'). oid x = i \<and> isActive x \<and> key x \<in> K"
    proof (cases "findByTmdbId s' (s_tmdbId item) (s_type item)")
      case None
      then show ?thesis using added(2) old by simp
    next
      case (Some newMedia)
      then show ?thesis
        using added(2) old kk find_Some_key [OF Some] by auto
    qed
    show ?thesis using wf' nt' new by (simp add: collecting_def)
  qed
  then show ?thesis using res acc by simp
qed

lemma fold_trendingItem_collecting:
  "collecting K acc \<Longrightarrow> itemKey ` set items \<subseteq> K \<Longrightarrow> collecting K (fold (trendingItem r now) items acc)"
proof (induction items arbitrary: acc)
  case Nil
  then show ?case by simp
next
  case (Cons item items)
  have "collecting K (trendingItem r now item acc)"
    using Cons.prems by (intro trendingItem_collecting) auto
  then show ?case using Cons.IH [of "trendingItem r now item acc"] Cons.prems by simp
qed

lemma trendingItem_mono:
  "grows (fst (fst acc)) (fst (fst (trendingItem r now item acc)))
   \<and> set (snd acc) \<subseteq> set (snd (trendingItem r now item acc))"
proof -
  obtain s st ids where acc: "acc = ((s, st), ids)" by (cases acc) auto
  obtain s' st' ids' where res: "trendingItem r now item ((s, st), ids) = ((s', st'), ids')"
    by (cases "trendingItem r now item ((s, st), ids)") auto
  from trendingItem_cases [OF res] have "grows s s' \<and> set ids \<subseteq> set ids'"
    by (auto simp: grows_refl dest: save_grows split: option.splits)
  then show ?thesis using acc res by simp
qed

lemma fold_trendingItem_mono:
  "grows (fst (fst acc)) (fst (fst (fold (trendingItem r now) items acc)))
   \<and> set (snd acc) \<subseteq> set (snd (fold (trendingItem r now) items acc))"
proof (induction items arbitrary: acc)
  case Nil
  show ?case by (simp add: grows_refl)
next
  case (Cons item items)
  show ?case
    using trendingItem_mono [of acc r now item] Cons [of "trendingItem r now item acc"]
    by (auto intro: grows_trans)
qed

lemma trendingItem_found:
  assumes "findByTmdbId (fst (fst acc)) (s_tmdbId item) (s_type item) = Some d"
  shows "oid d \<in> set (snd (trendingItem r now item acc))"
  using assms by (cases acc) (auto simp: trendingItem_def)

lemma fold_trendingItem_found:
  "item \<in> set items \<Longrightarrow> findByTmdbId (fst (fst acc)) (s_tmdbId item) (s_type item) = Some d \<Longrightarrow>
     oid d \<in> set (snd (fold (trendingItem r now) items acc))"
proof (induction items arbitrary: acc)
  case Nil
  then show ?case by simp
next
  case (Cons x xs)
  have step: "findByTmdbId (fst (fst (trendingItem r now x acc))) (s_tmdbId item) (s_type item) = Some d"
    using trendingItem_mono [of acc r now x] Cons.prems(2) by (auto intro: grows_find)
  show ?case
  proof (cases "item \<in> set xs")
    case True
    then show ?thesis using Cons.IH [OF True step] by simp
  next
    case False
    then have "x = item" using Cons.prems(1) by simp
    then have "oid d \<in> set (snd (trendingItem r now x acc))"
      using trendingItem_found [OF Cons.prems(2), of r now] by simp
    then show ?thesis
      using fold_trendingItem_mono [of "trendingItem r now x acc" r now xs] by auto
  qed
qed

lemma syncTrendingContent_failed:
  "listing r (Trending ''all'' ''week'') = Inl e \<Longrightarrow>
     fst (syncTrendingContent r now (s, st)) = resetTrending s"
  by (simp add: syncTrendingContent_def tryCatch_def request_def resetTrending_def)

lemma syncTrendingContent_listed:
  "listing r (Trending ''all'' ''week'') = Inr L \<Longrightarrow>
     fst (syncTrendingContent r now (s, st))
       = markTrending now (snd (fold (trendingItem r now) (take 50 L) ((resetTrending s, st), [])))
           (fst (fst (fold (trendingItem r now) (take 50 L) ((resetTrending s, st), []))))"
  by (simp add: syncTrendingContent_def tryCatch_def request_def resetTrending_def markTrending_def
      case_prod_beta)

lemma resetTrending_sel:
  "docs (resetTrending s) = map (\<lambda>m. m\<lparr> trending := False \<rparr>) (docs s)"
  "next_oid (resetTrending s) = next_oid s" "key_index (resetTrending s) = key_index s"
  "slug_lib (resetTrending s) = slug_lib s"
  by (simp_all add: resetTrending_def updateMany_def)

lemma markTrending_docs:
  "docs (markTrending now ids s)
     = map (\<lambda>m. if oid m \<in> set ids then m\<lparr> trending := True, updatedAt := now \<rparr> else m) (docs s)"
  by (simp add: markTrending_def updateMany_def)

lemma wf_resetTrending: "wf_store s \<Longrightarrow> wf_store (resetTrending s)"
  by (simp add: wf_store_def resetTrending_sel comp_def)

lemma find_map_same:
  "(\<And>x. p (f x) = p x) \<Longrightarrow> find p (map f xs) = map_option f (find p xs)"
  by (induction xs) auto

lemma findByTmdbId_reset:
  "findByTmdbId (resetTrending s) i ty = map_option (\<lambda>m. m\<lparr> trending := False \<rparr>) (findByTmdbId s i ty)"
  unfolding findByTmdbId_def resetTrending_sel
  by (rule find_map_same) simp

lemma trending_only_matched:
  assumes wf: "wf_store s" and m: "m \<in> set (docs (fst (syncTrendingContent r now (s, st))))"
    and t: "trending m"
  shows "isActive m \<and> (\<exists>L. listing r (Trending ''all'' ''week'') = Inr L
                              \<and> key m \<in> itemKey ` set (take 50 L))"
proof (cases "listing r (Trending ''all'' ''week'')")
  case (Inl e)
  then show ?thesis
    using m t by (auto simp: syncTrendingContent_failed resetTrending_sel)
next
  case (Inr L)
  define K where "K = itemKey ` set (take 50 L)"
  define acc where "acc = fold (trendingItem r now) (take 50 L) ((resetTrending s, st), [])"
  have "collecting K ((resetTrending s, st), [])"
    using wf by (simp add: collecting_def wf_resetTrending resetTrending_sel)
  then have c: "collecting K acc"
    unfolding acc_def by (rule fold_trendingItem_collecting) (simp add: K_def)
  have "m \<in> set (docs (markTrending now (snd acc) (fst (fst acc))))"
    using m syncTrendingContent_listed [OF Inr, of now s st] by (simp add: acc_def)
  then obtain x where x: "x \<in> set (docs (fst (fst acc)))"
      and mx: "m = (if oid x \<in> set (snd acc) then x\<lparr> trending := True, updatedAt := now \<rparr> else x)"
    by (auto simp: markTrending_docs)
  have "\<not> trending x" using c x by (simp add: collecting_def)
  then have in_ids: "oid x \<in> set (snd acc)" and mm: "m = x\<lparr> trending := True, updatedAt := now \<rparr>"
    using mx t by (auto split: if_splits)
  obtain y where y: "y \<in> set (docs (fst (fst acc)))" "oid y = oid x" "isActive y" "key y \<in> K"
    using c in_ids by (auto simp: collecting_def)
  have "distinct (map oid (docs (fst (fst acc))))" using c by (simp add: collecting_def wf_store_def)
  then have "y = x" using y(1) x y(2) by (rule same_oid_same_doc)
  then have "isActive m \<and> key m \<in> K" using y mm by (simp add: key_def)
  then show ?thesis using Inr by (auto simp: K_def)
qed

lemma trending_present_flagged:
  assumes l: "listing r (Trending ''all'' ''week'') = Inr L" and i: "item \<in> set (take 50 L)"
    and f: "findByTmdbId s (s_tmdbId item) (s_type item) = Some d"
  shows "\<exists>m \<in> set (docs (fst (syncTrendingContent r now (s, st)))). oid m = oid d \<and> trending m"
proof -
  define acc where "acc = fold (trendingItem r now) (take 50 L) ((resetTrending s, st), [])"
  let ?d = "d\<lparr> trending := False \<rparr>"
  have f0: "findByTmdbId (fst (fst ((resetTrending s, st), []::nat list))) (s_tmdbId item) (s_type item) = Some ?d"
    using f by (simp add: findByTmdbId_reset)
  have ids: "oid ?d \<in> set (snd acc)"
    unfolding acc_def using i f0 by (rule fold_trendingItem_found)
  have "?d \<in> set (docs (resetTrending s))" using find_Some_key [OF f0 [simplified]] by simp
  moreover have "grows (resetTrending s) (fst (fst acc))"
    using fold_trendingItem_mono [of "((resetTrending s, st), [])" r now "take 50 L"] by (simp add: acc_def)
  ultimately have "?d \<in> set (docs (fst (fst acc)))" by (auto simp: grows_def)
  then have dd: "?d \<in> set (docs (fst (fst acc)))" .
  define f :: "media \<Rightarrow> media" where "f = (\<lambda>m. if oid m \<in> set (snd acc) then m\<lparr> trending := True, updatedAt := now \<rparr> else m)"
  have "f ?d \<in> set (map f (docs (fst (fst acc))))" using dd by simp
  then have "f ?d \<in> set (docs (fst (syncTrendingContent r now (s, st))))"
    using syncTrendingContent_listed [OF l, of now s st]
    by (simp only: acc_def f_def markTrending_docs)
  moreover have "oid (f ?d) = oid d \<and> trending (f ?d)" using ids by (simp add: f_def)
  ultimately show ?thesis by blast
qed

lemma findByTmdbId_None_iff:
  "findByTmdbId s i ty = None \<longleftrightarrow> (\<forall>m \<in> set (docs s). key m = (i, ty) \<longrightarrow> \<not> isActive m)"
  by (auto simp: findByTmdbId_def key_def find_None_iff)

lemma trendingItem_adds:
  assumes fetch: "fetchDetails r (s_type item) (s_tmdbId item) = Inr d"
    and agree: "(d_tmdbId d, d_type d) = itemKey item"
    and valid: "trim (d_title d) \<noteq> []" "d_description d \<noteq> []" "d_status d \<in> set statusEnum"
    and allActive: "\<forall>x \<in> set (docs (fst (fst acc))). key x = itemKey item \<longrightarrow> isActive x"
    and slugFree: "\<forall>x \<in> set (docs (fst (fst acc))).
                     slug x = finalSlug (fst (fst acc)) (convertTMDBToMediaFormat now d) \<longrightarrow> key x = itemKey item"
  shows "\<exists>m \<in> set (docs (fst (fst (trendingItem r now item acc)))).
           isActive m \<and> key m = itemKey item \<and> oid m \<in> set (snd (trendingItem r now item acc))"
proof -
  obtain s st ids where acc: "acc = ((s, st), ids)" by (cases acc) auto
  let ?c = "convertTMDBToMediaFormat now d"
  show ?thesis
  proof (cases "findByTmdbId s (s_tmdbId item) (s_type item)")
    case (Some found)
    then show ?thesis
      using find_Some_key [OF Some] by (auto simp: acc trendingItem_def itemKey_def)
  next
    case None
    then have nokey: "\<forall>x \<in> set (docs s). key x \<noteq> itemKey item"
      using allActive by (auto simp: acc findByTmdbId_None_iff itemKey_def)
    have "\<not> slugTaken (docs s) (finalSlug s ?c)"
      using slugFree nokey by (auto simp: acc slugTaken_def)
    moreover have "\<not> keyTaken (docs s) (tmdbId ?c) (type ?c)"
      using nokey agree by (auto simp: keyTaken_def key_def convert_fields)
    ultimately have "\<not> isl (save s now ?c)"
      using valid by (simp add: save_fails_iff convert_fields validates_convert)
    then obtain s1 where sv: "save s now ?c = Inr s1" by (cases "save s now ?c") auto
    obtain m where m: "docs s1 = docs s @ [m]" "isActive m = isActive ?c" "key m = (tmdbId ?c, type ?c)"
      using save_new [OF sv] by blast
    have mk: "isActive m \<and> key m = (s_tmdbId item, s_type item)"
      using m agree by (simp add: convert_flags convert_fields itemKey_def)
    then have "findByTmdbId s1 (s_tmdbId item) (s_type item) \<noteq> None"
      using m(1) by (auto simp: findByTmdbId_None_iff)
    then obtain nm where nm: "findByTmdbId s1 (s_tmdbId item) (s_type item) = Some nm" by blast
    have res: "trendingItem r now item acc = ((s1, st), ids @ [oid nm])"
      using None fetch sv nm
      by (simp add: acc trendingItem_def processBatch_single processItem_def await_def)
    show ?thesis
      using find_Some_key [OF nm] by (auto simp: res itemKey_def)
  qed
qed

lemma trendingItem_new_active:
  assumes "x \<in> set (docs (fst (fst (trendingItem r now item acc))))"
  shows "x \<in> set (docs (fst (fst acc))) \<or> isActive x"
proof -
  obtain s st ids where acc: "acc = ((s, st), ids)" by (cases acc) auto
  obtain s' st' ids' where res: "trendingItem r now item ((s, st), ids) = ((s', st'), ids')"
    by (cases "trendingItem r now item ((s, st), ids)") auto
  from trendingItem_cases [OF res] consider "s' = s"
    | d where "save s now (convertTMDBToMediaFormat now d) = Inr s'" by blast
  then have "x \<in> set (docs s) \<or> isActive x"
  proof cases
    case 1
    then show ?thesis using assms acc res by simp
  next
    case 2
    obtain m where "docs s' = docs s @ [m]" "isActive m = isActive (convertTMDBToMediaFormat now d)"
      using save_new [OF 2] by blast
    then show ?thesis using assms acc res by (auto simp: convert_flags)
  qed
  then show ?thesis by (simp add: acc)
qed

lemma grows_docs: "grows s s' \<Longrightarrow> set (docs s) \<subseteq> set (docs s')"
  by (auto simp: grows_def)

lemma grows_finalSlug: "grows s s' \<Longrightarrow> finalSlug s' d = finalSlug s d"
  by (simp add: grows_def finalSlug_def)

lemma fold_trendingItem_adds:
  assumes "item \<in> set items"
    and fetch: "fetchDetails r (s_type item) (s_tmdbId item) = Inr d"
    and agree: "(d_tmdbId d, d_type d) = itemKey item"
    and valid: "trim (d_title d) \<noteq> []" "d_description d \<noteq> []" "d_status d \<in> set statusEnum"
    and allActive: "\<forall>x \<in> set (docs (fst (fst acc))). key x = itemKey item \<longrightarrow> isActive x"
    and slugFree: "\<forall>x \<in> set (docs (fst (fst (fold (trendingItem r now) items acc)))).
                     slug x = finalSlug (fst (fst acc)) (convertTMDBToMediaFormat now d) \<longrightarrow> key x = itemKey item"
  shows "\<exists>m \<in> set (docs (fst (fst (fold (trendingItem r now) items acc)))).
           isActive m \<and> key m = itemKey item \<and> oid m \<in> set (snd (fold (trendingItem r now) items acc))"
  using assms(1) allActive slugFree
proof (induction items arbitrary: acc)
  case Nil
  then show ?case by simp
next
  case (Cons x xs)
  let ?acc1 = "trendingItem r now x acc"
  let ?fin = "fold (trendingItem r now) xs ?acc1"
  have g1: "grows (fst (fst acc)) (fst (fst ?acc1))" using trendingItem_mono [of acc r now x] by simp
  have g2: "grows (fst (fst ?acc1)) (fst (fst ?fin))" "set (snd ?acc1) \<subseteq> set (snd ?fin)"
    using fold_trendingItem_mono [of ?acc1 r now xs] by simp_all
  have free: "\<forall>y \<in> set (docs (fst (fst ?fin))).
                slug y = finalSlug (fst (fst acc)) (convertTMDBToMediaFormat now d) \<longrightarrow> key y = itemKey item"
    using Cons.prems(3) by simp
  show ?case
  proof (cases "item \<in> set xs")
    case True
    have a: "\<forall>y \<in> set (docs (fst (fst ?acc1))). key y = itemKey item \<longrightarrow> isActive y"
      using Cons.prems(2) trendingItem_new_active [of _ r now x acc] by blast
    have b: "\<forall>y \<in> set (docs (fst (fst ?fin))).
                slug y = finalSlug (fst (fst ?acc1)) (convertTMDBToMediaFormat now d) \<longrightarrow> key y = itemKey item"
      using free by (simp only: grows_finalSlug [OF g1])
    show ?thesis using Cons.IH [OF True a b] by simp
  next
    case False
    then have x: "x = item" using Cons.prems(1) by simp
    have "\<forall>y \<in> set (docs (fst (fst acc))).
            slug y = finalSlug (fst (fst acc)) (convertTMDBToMediaFormat now d) \<longrightarrow> key y = itemKey item"
      using free grows_docs [OF g1] grows_docs [OF g2(1)] by blast
    from trendingItem_adds [OF fetch agree valid Cons.prems(2) this]
    obtain m where "m \<in> set (docs (fst (fst ?acc1)))" "isActive m" "key m = itemKey item"
        "oid m \<in> set (snd ?acc1)"
      unfolding x by blast
    then have "m \<in> set (docs (fst (fst ?fin))) \<and> isActive m \<and> key m = itemKey item
                 \<and> oid m \<in> set (snd ?fin)"
      using grows_docs [OF g2(1)] g2(2) by blast
    then show ?thesis by auto
  qed
qed

lemma trending_absent_inserted:
  assumes l: "listing r (Trending ''all'' ''week'') = Inr L" and i: "item \<in> set (take 50 L)"
    and fetch: "fetchDetails r (s_type item) (s_tmdbId item) = Inr d"
    and agree: "(d_tmdbId d, d_type d) = itemKey item"
    and valid: "trim (d_title d) \<noteq> []" "d_description d \<noteq> []" "d_status d \<in> set statusEnum"
    and allActive: "\<forall>x \<in> set (docs s). key x = itemKey item \<longrightarrow> isActive x"
    and slugFree: "\<forall>x \<in> set (docs (fst (syncTrendingContent r now (s, st)))).
                     slug x = finalSlug s (convertTMDBToMediaFormat now d) \<longrightarrow> key x = itemKey item"
  shows "\<exists>m \<in> set (docs (fst (syncTrendingContent r now (s, st)))).
           key m = itemKey item \<and> isActive m \<and> trending m"
proof -
  define acc0 :: "(store \<times> syncer) \<times> nat list" where "acc0 = ((resetTrending s, st), [])"
  define acc where "acc = fold (trendingItem r now) (take 50 L) acc0"
  define f :: "media \<Rightarrow> media" where "f = (\<lambda>m. if oid m \<in> set (snd acc)
      then m\<lparr> trending := True, updatedAt := now \<rparr> else m)"
  have fin: "docs (fst (syncTrendingContent r now (s, st))) = map f (docs (fst (fst acc)))"
    using syncTrendingContent_listed [OF l, of now s st]
    by (simp only: acc_def acc0_def f_def markTrending_docs)
  have fk: "\<And>m. key (f m) = key m \<and> slug (f m) = slug m \<and> isActive (f m) = isActive m"
    by (simp add: f_def key_def)
  have a: "\<forall>x \<in> set (docs (fst (fst acc0))). key x = itemKey item \<longrightarrow> isActive x"
    using allActive by (auto simp: acc0_def resetTrending_sel key_def)
  have fs: "finalSlug (fst (fst acc0)) (convertTMDBToMediaFormat now d)
              = finalSlug s (convertTMDBToMediaFormat now d)"
    by (simp add: acc0_def finalSlug_def resetTrending_sel)
  have b: "\<forall>x \<in> set (docs (fst (fst (fold (trendingItem r now) (take 50 L) acc0)))).
             slug x = finalSlug (fst (fst acc0)) (convertTMDBToMediaFormat now d) \<longrightarrow> key x = itemKey item"
  proof (intro ballI impI)
    fix x assume x: "x \<in> set (docs (fst (fst (fold (trendingItem r now) (take 50 L) acc0))))"
      and sl: "slug x = finalSlug (fst (fst acc0)) (convertTMDBToMediaFormat now d)"
    have "f x \<in> set (docs (fst (syncTrendingContent r now (s, st))))"
      using x by (simp add: fin acc_def)
    moreover have "slug (f x) = finalSlug s (convertTMDBToMediaFormat now d)"
      using sl fs fk by simp
    ultimately have "key (f x) = itemKey item" using slugFree by blast
    then show "key x = itemKey item" using fk by simp
  qed
  from fold_trendingItem_adds [OF i fetch agree valid a b]
  obtain m where m: "m \<in> set (docs (fst (fst acc)))" "isActive m" "key m = itemKey item"
      "oid m \<in> set (snd acc)"
    unfolding acc_def by blast
  have "f m \<in> set (docs (fst (syncTrendingContent r now (s, st))))" using m(1) by (simp add: fin)
  moreover have "trending (f m)" using m(4) by (simp add: f_def)
  moreover have "key (f m) = itemKey item \<and> isActive (f m)" using m(2,3) fk by simp
  ultimately show ?thesis by blast
qed

lemma script_trending_inserts_nothing:
  "map (\<lambda>m. (oid m, key m)) (docs (fst (script_syncTrendingContent r now ss)))
     = map (\<lambda>m. (oid m, key m)) (docs (fst ss))"
  by (simp add: script_syncTrendingContent_def Let_def updateMany_def key_def comp_def
      split: sum.splits)

lemma script_trending_only_popular:
  assumes "\<not> isRunning (snd ss)" and "m \<in> set (docs (fst (script_syncTrendingContent r now ss)))"
    and "trending m"
  shows "(\<exists>L. listing r (PopularMovies 1) = Inr L \<and> type m = Movie
              \<and> tmdbId m \<in> s_tmdbId ` set (take 20 L))
       \<or> (\<exists>L. listing r (PopularTVShows 1) = Inr L \<and> type m = Series
              \<and> tmdbId m \<in> s_tmdbId ` set (take 20 L))"
  using assms
  by (auto simp: script_syncTrendingContent_def Let_def updateMany_def split: sum.splits if_splits)

text \<open>
  Claim C5, as amended. After \<^verbatim>\<open>syncTrendingContent\<close> of CatalogSyncer on a well-formed
  store, a document is flagged only if it is active and its key is that of one of the first
  50 items of the trending listing; every such item that the existence check finds before
  the pass has its document flagged; and a listed item that is absent is inserted and flagged
  when its details are fetched under the same key, its title and description are not empty,
  its status is one of the schema, no inactive document has its key, and no document of
  another key holds its slug. The pass
  of the script inserts nothing: it keeps the documents and their keys, and flags only stored
  movies and series among the first 20 popular ones.
\<close>

theorem C5_trending_flags_matched_items:
  assumes "wf_store s"
  shows "(\<forall>m \<in> set (docs (fst (syncTrendingContent r now (s, st)))).
            trending m \<longrightarrow>
              isActive m \<and> (\<exists>L. listing r (Trending ''all'' ''week'') = Inr L
                                  \<and> key m \<in> itemKey ` set (take 50 L)))
     \<and> (\<forall>L item d.
            listing r (Trending ''all'' ''week'') = Inr L \<and> item \<in> set (take 50 L)
            \<and> findByTmdbId s (s_tmdbId item) (s_type item) = Some d
            \<longrightarrow> (\<exists>m \<in> set (docs (fst (syncTrendingContent r now (s, st)))). oid m = oid d \<and> trending m))
     \<and> (\<forall>L item d.
            listing r (Trending ''all'' ''week'') = Inr L \<and> item \<in> set (take 50 L)
            \<and> fetchDetails r (s_type item) (s_tmdbId item) = Inr d
            \<and> (d_tmdbId d, d_type d) = itemKey item
            \<and> trim (d_title d) \<noteq> [] \<and> d_description d \<noteq> [] \<and> d_status d \<in> set statusEnum
            \<and> (\<forall>x \<in> set (docs s). key x = itemKey item \<longrightarrow> isActive x)
            \<and> (\<forall>x \<in> set (docs (fst (syncTrendingContent r now (s, st)))).
                  slug x = finalSlug s (convertTMDBToMediaFormat now d) \<longrightarrow> key x = itemKey item)
            \<longrightarrow> (\<exists>m \<in> set (docs (fst (syncTrendingContent r now (s, st)))).
                   key m = itemKey item \<and> isActive m \<and> trending m))
     \<and> map (\<lambda>m. (oid m, key m)) (docs (fst (script_syncTrendingContent r now (s, st))))
         = map (\<lambda>m. (oid m, key m)) (docs s)
     \<and> (\<forall>m \<in> set (docs (fst (script_syncTrendingContent r now (s, st)))).
            \<not> isRunning st \<and> trending m \<longrightarrow>
              (\<exists>L. listing r (PopularMovies 1) = Inr L \<and> type m = Movie
                    \<and> tmdbId m \<in> s_tmdbId ` set (take 20 L))
            \<or> (\<exists>L. listing r (PopularTVShows 1) = Inr L \<and> type m = Series
                    \<and> tmdbId m \<in> s_tmdbId ` set (take 20 L)))"
proof (intro conjI)
  show "\<forall>m \<in> set (docs (fst (syncTrendingContent r now (s, st)))).
            trending m \<longrightarrow>
              isActive m \<and> (\<exists>L. listing r (Trending ''all'' ''week'') = Inr L
                                  \<and> key m \<in> itemKey ` set (take 50 L))"
    using trending_only_matched [OF assms] by blast
  show "\<forall>L item d.
            listing r (Trending ''all'' ''week'') = Inr L \<and> item \<in> set (take 50 L)
            \<and> findByTmdbId s (s_tmdbId item) (s_type item) = Some d
            \<longrightarrow> (\<exists>m \<in> set (docs (fst (syncTrendingContent r now (s, st)))). oid m = oid d \<and> trending m)"
    using trending_present_flagged by blast
  show "\<forall>L item d.
            listing r (Trending ''all'' ''week'') = Inr L \<and> item \<in> set (take 50 L)
            \<and> fetchDetails r (s_type item) (s_tmdbId item) = Inr d
            \<and> (d_tmdbId d, d_type d) = itemKey item
            \<and> trim (d_title d) \<noteq> [] \<and> d_description d \<noteq> [] \<and> d_status d \<in> set statusEnum
            \<and> (\<forall>x \<in> set (docs s). key x = itemKey item \<longrightarrow> isActive x)
            \<and> (\<forall>x \<in> set (docs (fst (syncTrendingContent r now (s, st)))).
                  slug x = finalSlug s (convertTMDBToMediaFormat now d) \<longrightarrow> key x = itemKey item)
            \<longrightarrow> (\<exists>m \<in> set (docs (fst (syncTrendingContent r now (s, st)))).
                   key m = itemKey item \<and> isActive m \<and> trending m)"
  proof (intro allI impI, elim conjE)
    fix L item d
    assume "listing r (Trending ''all'' ''week'') = Inr L" "item \<in> set (take 50 L)"
      "fetchDetails r (s_type item) (s_tmdbId item) = Inr d" "(d_tmdbId d, d_type d) = itemKey item"
      "trim (d_title d) \<noteq> []" "d_description d \<noteq> []" "d_status d \<in> set statusEnum"
      "\<forall>x \<in> set (docs s). key x = itemKey item \<longrightarrow> isActive x"
      "\<forall>x \<in> set (docs (fst (syncTrendingContent r now (s, st)))).
          slug x = finalSlug s (convertTMDBToMediaFormat now d) \<longrightarrow> key x = itemKey item"
    then show "\<exists>m \<in> set (docs (fst (syncTrendingContent r now (s, st)))).
                 key m = itemKey item \<and> isActive m \<and> trending m"
      by (rule trending_absent_inserted)
  qed
  show "map (\<lambda>m. (oid m, key m)) (docs (fst (script_syncTrendingContent r now (s, st))))
         = map (\<lambda>m. (oid m, key m)) (docs s)"
    using script_trending_inserts_nothing [of r now "(s, st)"] by simp
  show "\<forall>m \<in> set (docs (fst (script_syncTrendingContent r now (s, st)))).
            \<not> isRunning st \<and> trending m \<longrightarrow>
              (\<exists>L. listing r (PopularMovies 1) = Inr L \<and> type m = Movie
                    \<and> tmdbId m \<in> s_tmdbId ` set (take 20 L))
            \<or> (\<exists>L. listing r (PopularTVShows 1) = Inr L \<and> type m = Series
                    \<and> tmdbId m \<in> s_tmdbId ` set (take 20 L))"
    using script_trending_only_popular [of "(s, st)" _ r now] by auto
qed

text \<open>
  On the store with movies 1 and 701 and the listing of movies 1, 2 and 3: the flag of
  movie 701 is cleared, movie 1 is flagged, movie 3 is inserted and flagged, and the script
  keeps the two documents.
\<close>

theorem C5_trending_flags_matched_items_witness:
  "wf_store trendingStore
   \<and> trending (docs trendingStore ! 1)
   \<and> key (docs (fst (syncTrendingContent remoteTrending (days 1) (trendingStore, idle))) ! 1) = (701, Movie)
   \<and> \<not> trending (docs (fst (syncTrendingContent remoteTrending (days 1) (trendingStore, idle))) ! 1)
   \<and> findByTmdbId trendingStore 1 Movie = Some (movieDoc 0 1 ''stored-alpha'' False)
   \<and> (\<exists>m \<in> set (docs (fst (syncTrendingContent remoteTrending (days 1) (trendingStore, idle)))).
         oid m = 0 \<and> trending m)
   \<and> findByTmdbId trendingStore 3 Movie = None
   \<and> (\<exists>m \<in> set (docs (fst (syncTrendingContent remoteTrending (days 1) (trendingStore, idle)))).
         key m = (3, Movie) \<and> isActive m \<and> trending m)
   \<and> map (\<lambda>m. (oid m, key m)) (docs (fst (script_syncTrendingContent remoteTrending (days 1) (trendingStore, idle))))
       = [(0, (1, Movie)), (1, (701, Movie))]"
proof -
  let ?fin = "fst (syncTrendingContent remoteTrending (days 1) (trendingStore, idle))"
  let ?d = "projr (fetchDetails remoteTrending Movie 3)"
  have wf: "wf_store trendingStore" by code_simp
  note C5 = C5_trending_flags_matched_items [OF wf, of remoteTrending "days 1" idle]
  have l: "listing remoteTrending (Trending ''all'' ''week'') = Inr [movieItem 1 7, movieItem 2 7, movieItem 3 7]"
    by (simp add: remoteTrending_def)
  have t0: "trending (docs trendingStore ! 1)" by code_simp
  have k1: "key (docs ?fin ! 1) = (701, Movie)" by code_simp
  have in1: "docs ?fin ! 1 \<in> set (docs ?fin)" by code_simp
  have notin: "(701, Movie) \<notin> itemKey ` set (take 50 [movieItem 1 7, movieItem 2 7, movieItem 3 7])"
    by (simp add: itemKey_def movieItem_def)
  have p1: "\<not> trending (docs ?fin ! 1)"
    using C5 [THEN conjunct1, rule_format, OF in1] l k1 notin by auto
  have f1: "findByTmdbId trendingStore 1 Movie = Some (movieDoc 0 1 ''stored-alpha'' False)" by code_simp
  have i1: "movieItem 1 7 \<in> set (take 50 [movieItem 1 7, movieItem 2 7, movieItem 3 7])" by simp
  have p2: "\<exists>m \<in> set (docs ?fin). oid m = 0 \<and> trending m"
    using C5 [THEN conjunct2, THEN conjunct1, rule_format, of _ "movieItem 1 7" "movieDoc 0 1 ''stored-alpha'' False"]
      l i1 f1 by (simp add: movieItem_def movieDoc_def)
  have f3: "findByTmdbId trendingStore 3 Movie = None" by code_simp
  have i3: "movieItem 3 7 \<in> set (take 50 [movieItem 1 7, movieItem 2 7, movieItem 3 7])" by simp
  have h1: "fetchDetails remoteTrending (s_type (movieItem 3 7)) (s_tmdbId (movieItem 3 7)) = Inr ?d" by code_simp
  have h2: "(d_tmdbId ?d, d_type ?d) = itemKey (movieItem 3 7)" by code_simp
  have h3: "trim (d_title ?d) \<noteq> []" by code_simp
  have h4: "d_description ?d \<noteq> []" by code_simp
  have h4': "d_status ?d \<in> set statusEnum" by code_simp
  have h5: "\<forall>x \<in> set (docs trendingStore). key x = itemKey (movieItem 3 7) \<longrightarrow> isActive x" by code_simp
  have h6: "\<forall>x \<in> set (docs ?fin).
              slug x = finalSlug trendingStore (convertTMDBToMediaFormat (days 1) ?d)
                \<longrightarrow> key x = itemKey (movieItem 3 7)" by code_simp
  have p3: "\<exists>m \<in> set (docs ?fin). key m = (3, Movie) \<and> isActive m \<and> trending m"
    using C5 [THEN conjunct2, THEN conjunct2, THEN conjunct1, rule_format, of _ "movieItem 3 7" ?d]
      l i3 h1 h2 h3 h4 h4' h5 h6 by (simp add: itemKey_def movieItem_def)
  have p4: "map (\<lambda>m. (oid m, key m)) (docs (fst (script_syncTrendingContent remoteTrending (days 1) (trendingStore, idle))))
       = [(0, (1, Movie)), (1, (701, Movie))]"
    using C5 [THEN conjunct2, THEN conjunct2, THEN conjunct2, THEN conjunct1]
    by (simp add: trendingStore_def storeOf_def movieDoc_def key_def)
  show ?thesis using wf t0 k1 p1 f1 p2 f3 p3 p4 by blast
qed

text \<open>
  Claim C5 as stated fails there: movie 2 is listed as trending and absent from the store,
  its keyword request fails, and it is not in the store after the pass of CatalogSyncer.
  After the pass of the script, movie 3, listed as popular and absent, is not in the store
  either.
\<close>

theorem C5_not_inserted_counterexample:
  "listing remoteTrending (Trending ''all'' ''week'') = Inr [movieItem 1 7, movieItem 2 7, movieItem 3 7]
   \<and> map key (docs trendingStore) = [(1, Movie), (701, Movie)]
   \<and> map (\<lambda>m. (key m, trending m)) (docs (fst (syncTrendingContent remoteTrending (days 1) (trendingStore, idle))))
       = [((1, Movie), True), ((701, Movie), False), ((3, Movie), True)]
   \<and> listing remoteTrending (PopularMovies 1) = Inr [movieItem 1 7, movieItem 3 7]
   \<and> map (\<lambda>m. (key m, trending m)) (docs (fst (script_syncTrendingContent remoteTrending (days 1) (trendingStore, idle))))
       = [((1, Movie), True), ((701, Movie), False)]"
  by code_simp

section \<open>The request queue (claim C7)\<close>

lemma settle_unfold:
  "settle srv horizon s =
     (case due s of None \<Rightarrow> s
      | Some d \<Rightarrow> if dueBy d horizon then settle srv horizon (fire srv s) else s)"
  by (rule settle.simps)

lemma loopHead_sel:
  "promises (loopHead srv now s) = promises s" "cache (loopHead srv now s) = cache s"
  "settlements (loopHead srv now s) = settlements s"
  by (auto simp: loopHead_def split: list.splits prod.splits)

lemma loopHead_requests: "requests (loopHead srv now s) = requests s"
  by (auto simp: requests_def loopHead_def split: list.splits prod.splits)

lemma afterResponse_sel:
  "outbound (afterResponse srv now e res s) = outbound s"
  "requestQueue (afterResponse srv now e res s) = requestQueue s"
  "promises (afterResponse srv now e res s) = promises s"
  "awaiting (afterResponse srv now e res s)
     = (if requestQueue s \<noteq> [] then Timer (now + requestDelay) else Nothing)"
  "isProcessingQueue (afterResponse srv now e res s) = (requestQueue s \<noteq> [] \<and> isProcessingQueue s)"
  "settlements (afterResponse srv now e res s) = settlements s @ [(now, e, res)]"
  "cache (afterResponse srv now e res s)
     = (case res of Inr data \<Rightarrow> cache_set (cache s) (cacheKey e) data now | Inl err \<Rightarrow> cache s)"
  by (auto simp: afterResponse_def loopHead_def Let_def split: sum.splits list.splits)

lemma afterResponse_requests: "requests (afterResponse srv now e res s) = requests s"
  by (simp add: requests_def afterResponse_sel)

lemma fire_requests: "requests (fire srv s) = requests s"
  by (auto simp: fire_def loopHead_requests afterResponse_requests split: awaiting.splits)

lemma fire_promises: "promises (fire srv s) = promises s"
  by (auto simp: fire_def loopHead_sel afterResponse_sel split: awaiting.splits)

lemma fire_fifo: "fifo s \<Longrightarrow> fifo (fire srv s)"
  by (simp add: fifo_def fire_requests fire_promises)

lemma fire_keyed: "keyed s \<Longrightarrow> keyed (fire srv s)"
  by (simp add: keyed_def fire_requests)

lemma loopHead_suspended: "isProcessingQueue s \<Longrightarrow> suspended (loopHead srv now s)"
  by (auto simp: suspended_def loopHead_def split: list.splits prod.splits)

lemma fire_suspended:
  assumes "suspended s"
  shows "suspended (fire srv s)"
proof (cases "awaiting s")
  case Nothing
  then show ?thesis using assms by (simp add: fire_def)
next
  case (Response e d res)
  then have "isProcessingQueue s" using assms by (auto simp: suspended_def)
  then show ?thesis using Response by (simp add: fire_def suspended_def afterResponse_sel)
next
  case (Timer w)
  then have "isProcessingQueue s" using assms by (auto simp: suspended_def)
  then show ?thesis using Timer by (simp add: fire_def loopHead_suspended)
qed

lemma loopHead_logged:
  assumes "list_all2 (answered srv) (settlements s) (outbound s)"
  shows "logged srv (loopHead srv now s)"
proof (cases "requestQueue s")
  case Nil
  then show ?thesis using assms by (simp add: loopHead_def logged_def)
next
  case (Cons e others)
  obtain d res where a: "axios_get srv e now = (d, res)" by (cases "axios_get srv e now") auto
  show ?thesis using assms Cons a by (simp add: loopHead_def logged_def)
qed

lemma fire_logged:
  assumes l: "logged srv s" and k: "keyed s"
  shows "logged srv (fire srv s)"
proof (cases "awaiting s")
  case Nothing
  then show ?thesis using l by (simp add: fire_def)
next
  case (Response e d res)
  then have o: "outbound s \<noteq> []" and e: "snd (last (outbound s)) = e"
      and a: "axios_get srv e (fst (last (outbound s))) = (d, res)"
      and p: "list_all2 (answered srv) (settlements s) (butlast (outbound s))"
    using l by (simp_all add: logged_def)
  have "e \<in> set (requests s)" using o e by (auto simp: requests_def intro!: image_eqI [of _ _ "last (outbound s)"])
  then have ke: "cacheKey e = endpoint e @ ''_'' @ JSON_stringify (params e)"
    using k by (simp add: keyed_def list_all_iff)
  have "answered srv (d, e, res) (last (outbound s))"
    using e a ke by (cases "last (outbound s)") (simp add: answered_def)
  then have "list_all2 (answered srv) (settlements s @ [(d, e, res)]) (butlast (outbound s) @ [last (outbound s)])"
    using p by (intro list_all2_appendI) simp_all
  then have "list_all2 (answered srv) (settlements s @ [(d, e, res)]) (outbound s)"
    using o by simp
  then show ?thesis using Response by (simp add: fire_def logged_def afterResponse_sel)
next
  case (Timer w)
  then have "list_all2 (answered srv) (settlements s) (outbound s)" using l by (simp add: logged_def)
  then show ?thesis using Timer by (simp add: fire_def loopHead_logged)
qed

lemma lastSuccess_append:
  "lastSuccess k (xs @ [(t, e, res)])
     = (case res of
          Inr data \<Rightarrow> if cacheKey e = k then Some (t, data) else lastSuccess k xs
        | Inl err \<Rightarrow> lastSuccess k xs)"
  by (induction xs) (auto split: option.splits sum.splits)

lemma fire_cacheAgrees:
  assumes "cacheAgrees s"
  shows "cacheAgrees (fire srv s)"
proof (cases "awaiting s")
  case Nothing
  then show ?thesis using assms by (simp add: fire_def)
next
  case (Response e d res)
  show ?thesis
    using assms Response
    by (cases res) (auto simp: fire_def cacheAgrees_def afterResponse_sel lastSuccess_append cache_set_def)
next
  case (Timer w)
  then show ?thesis using assms by (simp add: fire_def cacheAgrees_def loopHead_sel)
qed

lemma fire_sound: "sound srv s \<Longrightarrow> sound srv (fire srv s)"
  by (simp add: sound_def fire_fifo fire_keyed fire_suspended fire_logged fire_cacheAgrees)

lemma settle_sound: "sound srv s \<Longrightarrow> sound srv (settle srv horizon s)"
proof (induction srv horizon s rule: settle.induct)
  case (1 srv horizon s)
  show ?case
  proof (cases "due s")
    case None
    then show ?thesis using "1.prems" by (simp add: settle_unfold [of srv horizon s])
  next
    case (Some d)
    then show ?thesis
      using "1.IH" [OF Some] "1.prems" fire_sound [of srv s]
      by (auto simp: settle_unfold [of srv horizon s])
  qed
qed


lemma settle_drained: "awaiting (settle srv None s) = Nothing"
proof (induction srv "None :: int option" s rule: settle.induct)
  case (1 srv s)
  show ?case
  proof (cases "due s")
    case None
    then show ?thesis by (auto simp: settle_unfold [of srv None s] due_def split: awaiting.splits)
  next
    case (Some d)
    then show ?thesis using "1.hyps" [OF Some] by (simp add: settle_unfold [of srv None s] dueBy_def)
  qed
qed

lemma processQueue_requests: "requests (processQueue srv now s) = requests s"
  using loopHead_requests [of srv now "s\<lparr> isProcessingQueue := True \<rparr>"]
  by (simp add: processQueue_def requests_def)

lemma processQueue_sel:
  "promises (processQueue srv now s) = promises s" "cache (processQueue srv now s) = cache s"
  "settlements (processQueue srv now s) = settlements s"
  by (simp_all add: processQueue_def loopHead_sel)

lemma enqueue_requests:
  "requests (enqueue ep ps ckey s)
     = requests s @ [\<lparr> endpoint = ep, params = ps, ticket = promises s, cacheKey = ckey \<rparr>]"
  by (simp add: requests_def enqueue_def)

lemma enqueue_sel:
  "awaiting (enqueue ep ps ckey s) = awaiting s" "outbound (enqueue ep ps ckey s) = outbound s"
  "settlements (enqueue ep ps ckey s) = settlements s" "cache (enqueue ep ps ckey s) = cache s"
  "isProcessingQueue (enqueue ep ps ckey s) = isProcessingQueue s"
  "promises (enqueue ep ps ckey s) = Suc (promises s)"
  by (simp_all add: enqueue_def)

lemma enqueue_logged: "logged srv (enqueue ep ps ckey s) = logged srv s"
  unfolding logged_def enqueue_sel by (rule refl)

lemma queued_sound:
  assumes s: "sound srv s" and ck: "ckey = ep @ ''_'' @ JSON_stringify ps"
  shows "sound srv (processQueue srv now (enqueue ep ps ckey s))"
proof -
  let ?q = "enqueue ep ps ckey s"
  have f: "fifo (processQueue srv now ?q)"
    using s by (simp add: sound_def fifo_def processQueue_requests processQueue_sel enqueue_requests)
      (simp add: enqueue_def)
  have k: "keyed (processQueue srv now ?q)"
    using s ck by (simp add: sound_def keyed_def processQueue_requests enqueue_requests)
  have c: "cacheAgrees (processQueue srv now ?q)"
    using s by (simp add: sound_def cacheAgrees_def processQueue_sel) (simp add: enqueue_def)
  have sl: "suspended (processQueue srv now ?q) \<and> logged srv (processQueue srv now ?q)"
  proof (cases "isProcessingQueue s")
    case True
    then have "processQueue srv now ?q = ?q" by (simp add: processQueue_def enqueue_def)
    moreover have "suspended ?q" using s True by (simp add: sound_def suspended_def enqueue_def)
    moreover have "logged srv ?q" using s by (simp add: sound_def enqueue_logged)
    ultimately show ?thesis by simp
  next
    case False
    then have a: "awaiting s = Nothing" using s by (simp add: sound_def suspended_def)
    have pq: "processQueue srv now ?q = loopHead srv now (?q\<lparr> isProcessingQueue := True \<rparr>)"
      using False by (simp add: processQueue_def enqueue_def)
    have "list_all2 (answered srv) (settlements (?q\<lparr> isProcessingQueue := True \<rparr>))
            (outbound (?q\<lparr> isProcessingQueue := True \<rparr>))"
      using s a by (simp add: sound_def logged_def enqueue_def)
    then have "logged srv (loopHead srv now (?q\<lparr> isProcessingQueue := True \<rparr>))"
      by (rule loopHead_logged)
    moreover have "suspended (loopHead srv now (?q\<lparr> isProcessingQueue := True \<rparr>))"
      by (rule loopHead_suspended) simp
    ultimately show ?thesis by (simp add: pq)
  qed
  show ?thesis using f k c sl by (simp add: sound_def)
qed

lemma makeRequest_cases:
  "makeRequest srv now ep ps s = (Pending (promises s), processQueue srv now (enqueue ep ps (ep @ ''_'' @ JSON_stringify ps) s))
   \<or> (\<exists>d. cache_get (cache s) (ep @ ''_'' @ JSON_stringify ps) now = Some d \<and> truthy d
           \<and> makeRequest srv now ep ps s = (Cached d, s))"
  by (auto simp: makeRequest_def enqueue_def Let_def split: option.splits)

lemma makeRequest_sound: "sound srv s \<Longrightarrow> sound srv (snd (makeRequest srv now ep ps s))"
  using makeRequest_cases [of srv now ep ps s] queued_sound [of srv s _ ep ps now] by auto

lemma call_sound: "sound srv s \<Longrightarrow> sound srv (call srv c s)"
  by (cases c) (simp add: call_def makeRequest_sound settle_sound)

lemma fold_call_sound: "sound srv s \<Longrightarrow> sound srv (fold (call srv) calls s)"
  by (induction calls arbitrary: s) (simp_all add: call_sound)

lemma sound_fresh: "sound srv fresh"
  by (simp add: sound_def fifo_def keyed_def suspended_def logged_def cacheAgrees_def requests_def fresh_def)

lemma run_in_enqueue_order:
  "map (\<lambda>x. ticket (snd x)) (outbound (run srv calls fresh)) = [0..<promises (run srv calls fresh)]
   \<and> requestQueue (run srv calls fresh) = []"
proof -
  have s: "sound srv (run srv calls fresh)"
    unfolding run_def by (intro settle_sound fold_call_sound sound_fresh)
  have "awaiting (run srv calls fresh) = Nothing" unfolding run_def by (rule settle_drained)
  then have "requestQueue (run srv calls fresh) = []" using s by (simp add: sound_def suspended_def)
  then show ?thesis using s by (simp add: sound_def fifo_def requests_def comp_def)
qed

text \<open>
  Claim C7 at \<^verbatim>\<open>syncNewReleases\<close> of CatalogSyncer, which awaits
  \<^verbatim>\<open>getUpcomingMovies()\<close> and then calls \<^verbatim>\<open>getNowPlayingMovies()\<close>, on a fresh service
  and a remote service that answers after 50 ms. The request for \<^verbatim>\<open>/movie/upcoming\<close> is
  issued at 0 and settles at 50; the queue is empty then, \<^verbatim>\<open>processQueue\<close> returns
  without a delay, and the request for \<^verbatim>\<open>/movie/now_playing\<close>, made at 50, is issued at
  50: the two consecutive outbound requests are 50 ms apart, and \<^verbatim>\<open>requestDelay\<close> is 250.
\<close>

theorem C7_awaited_calls_not_spaced:
  "map (\<lambda>(t, e). (t, endpoint e))
       (outbound (run quick [(0, ''/movie/upcoming'', []), (50, ''/movie/now_playing'', [])] fresh))
     = [(0, ''/movie/upcoming''), (50, ''/movie/now_playing'')]
   \<and> map (\<lambda>(t, e, res). (t, endpoint e))
       (settlements (run quick [(0, ''/movie/upcoming'', []), (50, ''/movie/now_playing'', [])] fresh))
     = [(50, ''/movie/upcoming''), (100, ''/movie/now_playing'')]
   \<and> requestDelay = 250"
  by code_simp

section \<open>The response cache (claim C8)\<close>









end
